theory Spec2Isabelle
  imports
    Complex_Main
    "HOL-Library.Char_ord"
    "HOL-Library.List_Lexorder"
    "HOL-Library.Sublist"
begin

section \<open>Python primitives used by the control center\<close>

text \<open>
  Python strings are modelled as \<^typ>\<open>string\<close>, a character being a code point below
  256, and compared the way Python compares them: lexicographically, code point by code
  point (the instance of \<^theory_text>\<open>List_Lexorder\<close> over \<^theory_text>\<open>Char_ord\<close>). The catalog is
  ASCII text.
\<close>

text \<open>\<^verbatim>\<open>sub in s\<close> on strings: \<open>sub\<close> occurs in \<open>s\<close> as a contiguous run.\<close>

definition str_in :: "string \<Rightarrow> string \<Rightarrow> bool" where
  "str_in sub s = sublist sub s"

text \<open>\<^verbatim>\<open>sorted(list(set(xs)))\<close>: the distinct elements in ascending order. The iteration
  order of the intermediate Python set does not matter, as the elements are pairwise
  different and the order is total.\<close>

definition sorted_set :: "string list \<Rightarrow> string list" where
  "sorted_set xs = sort (remdups xs)"

text \<open>\<^verbatim>\<open>os.path.join(a, b)\<close> of \<^verbatim>\<open>posixpath\<close>: an absolute second component replaces
  the first; otherwise the two are glued with one separator, which is left out when the
  first component is empty or already ends with one.\<close>

definition os_path_join :: "string \<Rightarrow> string \<Rightarrow> string" where
  "os_path_join a b =
     (if b \<noteq> [] \<and> hd b = CHR ''/'' then b
      else if a = [] \<or> last a = CHR ''/'' then a @ b
      else a @ ''/'' @ b)"

section \<open>The resource catalog\<close>

record service_group =
  description :: string
  helm_releases :: "string list"
  manifests :: "string list"

text \<open>\<^verbatim>\<open>K8S_SERVICE_GROUPS\<close>, in the order in which the dictionary literal lists its keys.\<close>

definition K8S_SERVICE_GROUPS :: "(string \<times> service_group) list" where
  "K8S_SERVICE_GROUPS =
    [(''Stateful Backend'',
        \<lparr>description = ''PostgreSQL and MinIO for persistent data storage.'',
         helm_releases = [''postgres-metastore'', ''minio''],
         manifests = [''secrets/postgres-secret.yaml'', ''secrets/minio-secret.yaml'']\<rparr>),
     (''Messaging'',
        \<lparr>description = ''Kafka (via Confluent) and Redis for real-time communication and caching.'',
         helm_releases = [''redis''],
         manifests = [''apps/zookeeper.yaml'', ''apps/kafka.yaml'']\<rparr>),
     (''Core Applications'',
        \<lparr>description = ''The main hexagon orchestrator and hexagonal worker services (hexagon, assistant-worker, agent-tool-worker, etc.)'',
         helm_releases = [''api-gateway'', ''identity-worker''],
         manifests =
           [''config/core-config.yaml'', ''apps/control-plane.yaml'',
            ''config/worker-config.yaml'', ''apps/llm-worker.yaml'', ''apps/agent-tool-worker.yaml'',
            ''apps/data-processing-worker.yaml'', ''apps/interview-worker.yaml'',
            ''apps/latex-worker.yaml'', ''apps/resume-worker.yaml'',
            ''apps/wolfram-kernel.yaml'', ''apps/main-node.yaml'',
            ''rbac/main-node-observability-rbac.yaml'']\<rparr>),
     (''Scheduling App'',
        \<lparr>description = ''The AI-powered scheduling model service.'',
         helm_releases = [],
         manifests = [''config/scheduling-model-config.yaml'', ''apps/scheduling-model.yaml'']\<rparr>),
     (''News Ingestion Job'',
        \<lparr>description = ''The scheduled CronJob for ingesting news articles.'',
         helm_releases = [],
         manifests = [''config/news-ingestion-config.yaml'', ''apps/news-ingestion-cronjob.yaml'']\<rparr>)]"

text \<open>\<^verbatim>\<open>K8S_SERVICE_GROUPS.get(group_name, {})\<close> followed by \<^verbatim>\<open>.get("manifests", [])\<close>
  and \<^verbatim>\<open>.get("helm_releases", [])\<close>: an unknown name yields the empty dictionary, whose
  two lists default to empty.\<close>

definition group_manifests :: "string \<Rightarrow> string list" where
  "group_manifests group_name =
     (case map_of K8S_SERVICE_GROUPS group_name of
        None \<Rightarrow> []
      | Some group_data \<Rightarrow> manifests group_data)"

definition group_helm_releases :: "string \<Rightarrow> string list" where
  "group_helm_releases group_name =
     (case map_of K8S_SERVICE_GROUPS group_name of
        None \<Rightarrow> []
      | Some group_data \<Rightarrow> helm_releases group_data)"

section \<open>Group resolution\<close>

text \<open>
  \<^verbatim>\<open>get_group_resources\<close>. The module constant \<^verbatim>\<open>K8S_DIR\<close> is
  \<^verbatim>\<open>os.path.join(REPO_ROOT, "platform", "k8s")\<close>, whose value depends on where the
  repository is checked out; it is the parameter \<open>K8S_DIR\<close> here. The loop over the selected
  groups threads the two accumulators.
\<close>

fun collect_resources ::
  "string \<Rightarrow> string list \<Rightarrow> string list \<times> string list \<Rightarrow> string list \<times> string list" where
  "collect_resources K8S_DIR [] acc = acc"
| "collect_resources K8S_DIR (group_name # rest) (ms, hs) =
     collect_resources K8S_DIR rest
       (ms @ map (os_path_join K8S_DIR) (group_manifests group_name),
        hs @ group_helm_releases group_name)"

definition get_group_resources :: "string \<Rightarrow> string list \<Rightarrow> string list \<times> string list" where
  "get_group_resources K8S_DIR selected_groups =
     (case collect_resources K8S_DIR selected_groups ([], []) of
        (ms, hs) \<Rightarrow> (sorted_set ms, sorted_set hs))"

text \<open>Whether a name is a key of the catalog.\<close>

definition known_group :: "string \<Rightarrow> bool" where
  "known_group group_name = (group_name \<in> set (map fst K8S_SERVICE_GROUPS))"

section \<open>Script synthesis\<close>

subsection \<open>String helpers\<close>

text \<open>\<^verbatim>\<open>sep.join(xs)\<close>.\<close>

fun str_join :: "string \<Rightarrow> string list \<Rightarrow> string" where
  "str_join sep [] = []"
| "str_join sep [x] = x"
| "str_join sep (x # y # ys) = x @ sep @ str_join sep (y # ys)"

text \<open>\<^verbatim>\<open>str.isspace\<close> on a single character below 256: tab, line feed, vertical tab,
  form feed, carriage return, the four separators \<open>0x1c\<close> to \<open>0x1f\<close>, the space, the next
  line control \<open>0x85\<close> and the no-break space \<open>0xa0\<close>.\<close>

definition is_space :: "char \<Rightarrow> bool" where
  "is_space c =
     (let n = (of_char c :: nat)
      in (9 \<le> n \<and> n \<le> 13) \<or> (28 \<le> n \<and> n \<le> 32) \<or> n = 133 \<or> n = 160)"

text \<open>\<^verbatim>\<open>s.split()\<close> with no separator: the maximal runs of non-whitespace characters.
  The second argument is the word being read.\<close>

fun split_ws :: "string \<Rightarrow> string \<Rightarrow> string list" where
  "split_ws [] cur = (if cur = [] then [] else [cur])"
| "split_ws (c # cs) cur =
     (if is_space c then (if cur = [] then split_ws cs [] else cur # split_ws cs [])
      else split_ws cs (cur @ [c]))"

definition str_split :: "string \<Rightarrow> string list" where
  "str_split s = split_ws s []"

text \<open>\<^verbatim>\<open>s.lower()\<close> on characters below 256: the capitals \<open>A\<close> to \<open>Z\<close> and the
  accented capitals \<open>0xc0\<close> to \<open>0xde\<close>, the multiplication sign \<open>0xd7\<close> apart, move up by
  32; every other character stays.\<close>

definition lower_char :: "char \<Rightarrow> char" where
  "lower_char c =
     (let n = (of_char c :: nat)
      in if (65 \<le> n \<and> n \<le> 90) \<or> (192 \<le> n \<and> n \<le> 222 \<and> n \<noteq> 215)
         then char_of (n + 32) else c)"

definition str_lower :: "string \<Rightarrow> string" where
  "str_lower s = map lower_char s"

datatype py_error = IndexError

text \<open>\<^verbatim>\<open>group.split()[0].lower()\<close>: indexing the empty list of words raises.\<close>

definition first_word_lower :: "string \<Rightarrow> py_error + string" where
  "first_word_lower group_name =
     (case str_split group_name of [] \<Rightarrow> Inl IndexError | w # _ \<Rightarrow> Inr (str_lower w))"

text \<open>The generator expression handed to \<^verbatim>\<open>"_".join\<close>: the first name without a word
  raises and nothing is joined.\<close>

fun first_words_lower :: "string list \<Rightarrow> py_error + string list" where
  "first_words_lower [] = Inr []"
| "first_words_lower (group_name # rest) =
     (case first_word_lower group_name of
        Inl e \<Rightarrow> Inl e
      | Inr w \<Rightarrow> (case first_words_lower rest of Inl e \<Rightarrow> Inl e | Inr ws \<Rightarrow> Inr (w # ws)))"

text \<open>\<^verbatim>\<open>script_name_part\<close>: the conditional expression evaluates the join only when the two
  lengths differ.\<close>

definition script_name_part :: "string list \<Rightarrow> py_error + string" where
  "script_name_part selected_groups =
     (if length selected_groups = length K8S_SERVICE_GROUPS then Inr ''all''
      else (case first_words_lower selected_groups of
              Inl e \<Rightarrow> Inl e
            | Inr ws \<Rightarrow> Inr (str_join ''_'' ws)))"

subsection \<open>What a script is made of\<close>

text \<open>
  A generated script is the sequence of its \<^verbatim>\<open>f.write\<close> calls. Each call is recorded with
  the format string it instantiates: \<open>Text\<close> is a write that runs nothing against the
  cluster (interpreter line, comments, \<^verbatim>\<open>echo\<close>, shell options, blank lines), the other
  constructors are the command templates with their arguments. The functions
  \<open>render_sh\<close> and \<open>render_ps1\<close> give the characters each call writes to the \<^verbatim>\<open>.sh\<close>
  and to the \<^verbatim>\<open>.ps1\<close> file.
\<close>

datatype cmd =
    Text string
  | ClusterGuard
  | KubectlApply string
  | HelmRepoAdd string string
  | HelmRepoUpdate
  | HelmInstall string string string
  | KubectlDelete string
  | HelmDelete string
  | KubectlDeleteIfExists string
  | KubectlDeletePvc

definition quoted :: "string \<Rightarrow> string" where
  "quoted s = CHR 0x27 # s @ [CHR 0x27]"

fun render_sh :: "cmd \<Rightarrow> string" where
  "render_sh (Text t) = t"
| "render_sh ClusterGuard =
     ''kubectl cluster-info >/dev/null 2>&1 || { echo 'Cluster offline'; exit 1; }\<newline>\<newline>''"
| "render_sh (KubectlApply manifest) = ''kubectl apply -f '' @ manifest @ ''\<newline>''"
| "render_sh (HelmRepoAdd name url) = ''helm repo add '' @ name @ '' '' @ url @ ''\<newline>''"
| "render_sh HelmRepoUpdate = ''helm repo update\<newline>\<newline>''"
| "render_sh (HelmInstall release chart values) =
     ''helm install '' @ release @ '' '' @ chart @ '' -f '' @ values
       @ '' --namespace default\<newline>''"
| "render_sh (KubectlDelete file) =
     ''kubectl delete -f '' @ file @ '' --ignore-not-found=true\<newline>''"
| "render_sh (HelmDelete release) =
     ''helm status '' @ release @ '' --namespace default >/dev/null 2>&1 && helm delete ''
       @ release @ '' --namespace default || true\<newline>''"
| "render_sh (KubectlDeleteIfExists file) =
     ''[ -f '' @ file @ '' ] && kubectl delete -f '' @ file
       @ '' --ignore-not-found=true || true\<newline>''"
| "render_sh KubectlDeletePvc =
     ''kubectl delete pvc --all -n default --ignore-not-found=true\<newline>''"

fun render_ps1 :: "cmd \<Rightarrow> string" where
  "render_ps1 (Text t) = t"
| "render_ps1 ClusterGuard =
     ''try { kubectl cluster-info | Out-Null } catch { Write-Host 'Cluster offline'; exit 1 }\<newline>''"
| "render_ps1 (KubectlApply manifest) = ''kubectl apply -f '' @ quoted manifest @ ''\<newline>''"
| "render_ps1 (HelmRepoAdd name url) = ''helm repo add '' @ name @ '' '' @ url @ ''\<newline>''"
| "render_ps1 HelmRepoUpdate = ''helm repo update\<newline>\<newline>''"
| "render_ps1 (HelmInstall release chart values) =
     ''helm install '' @ release @ '' '' @ chart @ '' -f '' @ quoted values
       @ '' --namespace default\<newline>''"
| "render_ps1 (KubectlDelete file) =
     ''kubectl delete -f '' @ quoted file @ '' --ignore-not-found=true\<newline>''"
| "render_ps1 (HelmDelete release) =
     ''if (helm status '' @ release @ '' --namespace default 2>$null) { helm delete ''
       @ release @ '' --namespace default }\<newline>''"
| "render_ps1 (KubectlDeleteIfExists file) =
     ''if (Test-Path '' @ quoted file @ '') { kubectl delete -f '' @ quoted file
       @ '' --ignore-not-found=true }\<newline>''"
| "render_ps1 KubectlDeletePvc =
     ''kubectl delete pvc --all -n default --ignore-not-found=true\<newline>''"

text \<open>The two files written for one selection and mode.\<close>

record script_files =
  filename_sh :: string
  script_sh :: "cmd list"
  filename_ps1 :: string
  script_ps1 :: "cmd list"

text \<open>The characters of the \<^verbatim>\<open>.sh\<close> and of the \<^verbatim>\<open>.ps1\<close> file.\<close>

definition text_sh :: "script_files \<Rightarrow> string" where
  "text_sh r = concat (map render_sh (script_sh r))"

definition text_ps1 :: "script_files \<Rightarrow> string" where
  "text_ps1 r = concat (map render_ps1 (script_ps1 r))"

subsection \<open>Deploy scripts\<close>

text \<open>The two tables local to \<^verbatim>\<open>generate_k8s_deploy_script\<close>.\<close>

definition helm_charts :: "(string \<times> string) list" where
  "helm_charts =
     [(''postgres-metastore'', ''bitnami/postgresql''), (''minio'', ''minio/minio''),
      (''kafka'', ''bitnami/kafka''), (''redis'', ''bitnami/redis'')]"

definition helm_values :: "(string \<times> string) list" where
  "helm_values =
     [(''postgres-metastore'', ''charts/postgres/values.yaml''),
      (''minio'', ''charts/minio/values.yaml''),
      (''kafka'', ''charts/kafka/values.yaml''), (''redis'', ''charts/redis/values.yaml'')]"

text \<open>The body of the loop over the releases: \<^verbatim>\<open>if chart and values_rel\<close> writes the
  install command only when both lookups give a non-empty string.\<close>

definition helm_install_cmd :: "string \<Rightarrow> string \<Rightarrow> cmd list" where
  "helm_install_cmd K8S_DIR release =
     (case (map_of helm_charts release, map_of helm_values release) of
        (Some chart, Some values_rel) \<Rightarrow>
          if chart \<noteq> [] \<and> values_rel \<noteq> []
          then [HelmInstall release chart (os_path_join K8S_DIR values_rel)] else []
      | _ \<Rightarrow> [])"

definition is_secret_or_config :: "string \<Rightarrow> bool" where
  "is_secret_or_config m = (str_in ''secrets/'' m \<or> str_in ''config/'' m)"

definition is_app :: "string \<Rightarrow> bool" where
  "is_app m = str_in ''apps/'' m"

definition helm_section :: "string \<Rightarrow> string list \<Rightarrow> cmd list" where
  "helm_section K8S_DIR helm_releases_to_install =
     (if helm_releases_to_install \<noteq> [] then
        [Text ''# --- Installing Helm Charts for 3rd party services ---\<newline>'',
         HelmRepoAdd ''bitnami'' ''https://charts.bitnami.com/bitnami'',
         HelmRepoAdd ''minio'' ''https://charts.min.io/'',
         HelmRepoUpdate]
        @ concat (map (helm_install_cmd K8S_DIR) helm_releases_to_install)
        @ [Text ''\<newline>'']
      else [])"

definition deploy_script_sh :: "string \<Rightarrow> string list \<Rightarrow> string list \<Rightarrow> string list \<Rightarrow> cmd list" where
  "deploy_script_sh K8S_DIR selected_groups manifests_to_apply helm_releases_to_install =
     (let secrets_and_configs = filter is_secret_or_config manifests_to_apply;
          apps = filter is_app manifests_to_apply
      in
        [Text ''#!/bin/bash\<newline>'',
         Text (''# Deploy script for: '' @ str_join '', '' selected_groups @ ''\<newline>''),
         Text ''# This script was generated by the EnginEdge Control Center.\<newline>set -e\<newline>\<newline>'',
         ClusterGuard,
         Text (''echo '' @ quoted ''Starting Kubernetes deployment...'' @ ''\<newline>\<newline>'')]
        @ (if secrets_and_configs \<noteq> [] then
             [Text ''# --- Applying Secrets and ConfigMaps ---\<newline>'']
             @ map KubectlApply (sort secrets_and_configs)
             @ [Text ''\<newline>'']
           else [])
        @ helm_section K8S_DIR helm_releases_to_install
        @ (if apps \<noteq> [] then
             [Text ''# --- Deploying Core Applications ---\<newline>'']
             @ map KubectlApply (sort apps)
             @ [Text ''\<newline>'']
           else [])
        @ [Text (''echo '' @ quoted ''Kubernetes deployment finished.'' @ ''\<newline>'')])"

definition deploy_script_ps1 :: "string \<Rightarrow> string list \<Rightarrow> string list \<Rightarrow> string list \<Rightarrow> cmd list" where
  "deploy_script_ps1 K8S_DIR selected_groups manifests_to_apply helm_releases_to_install =
     [Text ''Param()\<newline>'',
      Text (''$ErrorActionPreference = '' @ quoted ''Stop'' @ ''\<newline>''),
      Text (''Write-Host '' @ quoted (''Deploying: '' @ str_join '', '' selected_groups)
              @ ''\<newline>''),
      ClusterGuard,
      Text (''Write-Host '' @ quoted ''Starting Kubernetes deployment...''
              @ ''\<newline>\<newline>''),
      Text ''# --- Applying Secrets and ConfigMaps ---\<newline>'']
     @ map KubectlApply (sort (filter is_secret_or_config manifests_to_apply))
     @ [Text ''\<newline>'']
     @ helm_section K8S_DIR helm_releases_to_install
     @ [Text ''# --- Deploying Core Applications ---\<newline>'']
     @ map KubectlApply (sort (filter is_app manifests_to_apply))
     @ [Text ''\<newline>'',
        Text (''Write-Host '' @ quoted ''Kubernetes deployment finished.'' @ ''\<newline>'')]"

text \<open>
  \<^verbatim>\<open>generate_k8s_deploy_script\<close>. \<open>Inr None\<close> is one of the two early returns, which
  write nothing; \<open>Inl IndexError\<close> is the exception of the file-name computation, raised
  before any file is opened.
\<close>

definition generate_k8s_deploy_script :: "string \<Rightarrow> string list \<Rightarrow> py_error + script_files option" where
  "generate_k8s_deploy_script K8S_DIR selected_groups =
     (if selected_groups = [] then Inr None
      else (case get_group_resources K8S_DIR selected_groups of
        (manifests_to_apply, helm_releases_to_install) \<Rightarrow>
          if manifests_to_apply = [] \<and> helm_releases_to_install = [] then Inr None
          else (case script_name_part selected_groups of
            Inl e \<Rightarrow> Inl e
          | Inr part \<Rightarrow>
              Inr (Some
                \<lparr>filename_sh = ''deploy_k8s_'' @ part @ ''.sh'',
                 script_sh = deploy_script_sh K8S_DIR selected_groups
                               manifests_to_apply helm_releases_to_install,
                 filename_ps1 = ''deploy_k8s_'' @ part @ ''.ps1'',
                 script_ps1 = deploy_script_ps1 K8S_DIR selected_groups
                                manifests_to_apply helm_releases_to_install\<rparr>))))"

subsection \<open>Destroy scripts\<close>

text \<open>\<^verbatim>\<open>sorted(xs, reverse=True)\<close> on strings: equal strings are indistinguishable, so the
  descending stable sort is the reversed ascending one.\<close>

definition sorted_reverse :: "string list \<Rightarrow> string list" where
  "sorted_reverse xs = rev (sort xs)"

definition is_app_or_config :: "string \<Rightarrow> bool" where
  "is_app_or_config m = (str_in ''apps/'' m \<or> str_in ''config/'' m)"

definition is_secret :: "string \<Rightarrow> bool" where
  "is_secret m = str_in ''secrets/'' m"

definition pvc_section_sh :: "bool \<Rightarrow> cmd list" where
  "pvc_section_sh preserve_pvc =
     (if preserve_pvc then
        [Text (''echo ''
           @ quoted ''PersistentVolumeClaims preserved (wolfram-state and other PVCs retained).''
           @ ''\<newline>'')]
      else
        [Text ''# --- Deleting PersistentVolumeClaims ---\<newline>'',
         KubectlDeletePvc,
         Text ''\<newline>''])"

definition pvc_section_ps1 :: "bool \<Rightarrow> cmd list" where
  "pvc_section_ps1 preserve_pvc =
     (if preserve_pvc then
        [Text (''Write-Host ''
           @ quoted ''PersistentVolumeClaims preserved (wolfram-state and other PVCs retained).''
           @ ''\<newline>'')]
      else
        [Text ''# --- Deleting PersistentVolumeClaims ---\<newline>'',
         KubectlDeletePvc,
         Text ''\<newline>''])"

definition helm_delete_section :: "string list \<Rightarrow> cmd list" where
  "helm_delete_section helm_releases_to_delete =
     (if helm_releases_to_delete \<noteq> [] then
        [Text ''# --- Deleting Helm Releases ---\<newline>'']
        @ map HelmDelete helm_releases_to_delete
        @ [Text ''\<newline>'']
      else [])"

definition secrets_delete_section :: "string list \<Rightarrow> cmd list" where
  "secrets_delete_section manifests_to_delete =
     (let secrets = filter is_secret manifests_to_delete in
      if secrets \<noteq> [] then
        [Text ''# --- Deleting Secrets ---\<newline>'']
        @ map KubectlDeleteIfExists (sorted_reverse secrets)
        @ [Text ''\<newline>'']
      else [])"

definition destroy_script_sh :: "string list \<Rightarrow> string list \<Rightarrow> string list \<Rightarrow> bool \<Rightarrow> cmd list" where
  "destroy_script_sh selected_groups manifests_to_delete helm_releases_to_delete preserve_pvc =
     (let apps_and_configs = filter is_app_or_config manifests_to_delete
      in
        [Text ''#!/bin/bash\<newline># Destroys selected application components from Kubernetes.\<newline>set -e\<newline>\<newline>'',
         ClusterGuard,
         Text (''echo ''
           @ quoted (''Starting Kubernetes teardown for: '' @ str_join '', '' selected_groups
                      @ ''...'')
           @ ''\<newline>\<newline>'')]
        @ (if apps_and_configs \<noteq> [] then
             [Text ''# --- Deleting Applications and ConfigMaps ---\<newline>'']
             @ map KubectlDelete (sorted_reverse apps_and_configs)
             @ [Text ''\<newline>'']
           else [])
        @ helm_delete_section helm_releases_to_delete
        @ secrets_delete_section manifests_to_delete
        @ pvc_section_sh preserve_pvc
        @ [Text (''echo '' @ quoted ''Kubernetes teardown finished.'' @ ''\<newline>'')])"

definition destroy_script_ps1 :: "string list \<Rightarrow> string list \<Rightarrow> string list \<Rightarrow> bool \<Rightarrow> cmd list" where
  "destroy_script_ps1 selected_groups manifests_to_delete helm_releases_to_delete preserve_pvc =
     [Text ''Param()\<newline>'',
      Text (''$ErrorActionPreference = '' @ quoted ''Stop'' @ ''\<newline>''),
      Text (''Write-Host '' @ quoted (''Tearing down: '' @ str_join '', '' selected_groups)
              @ ''\<newline>''),
      ClusterGuard,
      Text (''Write-Host '' @ quoted ''Starting Kubernetes teardown...''
              @ ''\<newline>\<newline>''),
      Text ''# --- Deleting Applications and ConfigMaps ---\<newline>'']
     @ map KubectlDelete (sorted_reverse (filter is_app_or_config manifests_to_delete))
     @ [Text ''\<newline>'']
     @ helm_delete_section helm_releases_to_delete
     @ secrets_delete_section manifests_to_delete
     @ pvc_section_ps1 preserve_pvc
     @ [Text (''Write-Host '' @ quoted ''Kubernetes teardown finished.'' @ ''\<newline>'')]"

text \<open>\<^verbatim>\<open>generate_k8s_destroy_script\<close>, with the same three outcomes as the deploy
  generator.\<close>

definition generate_k8s_destroy_script ::
  "string \<Rightarrow> string list \<Rightarrow> bool \<Rightarrow> py_error + script_files option" where
  "generate_k8s_destroy_script K8S_DIR selected_groups preserve_pvc =
     (if selected_groups = [] then Inr None
      else (case get_group_resources K8S_DIR selected_groups of
        (manifests_to_delete, helm_releases_to_delete) \<Rightarrow>
          if manifests_to_delete = [] \<and> helm_releases_to_delete = [] then Inr None
          else (case script_name_part selected_groups of
            Inl e \<Rightarrow> Inl e
          | Inr part \<Rightarrow>
              Inr (Some
                \<lparr>filename_sh = ''destroy_k8s_'' @ part @ ''.sh'',
                 script_sh = destroy_script_sh selected_groups
                               manifests_to_delete helm_releases_to_delete preserve_pvc,
                 filename_ps1 = ''destroy_k8s_'' @ part @ ''.ps1'',
                 script_ps1 = destroy_script_ps1 selected_groups
                                manifests_to_delete helm_releases_to_delete preserve_pvc\<rparr>))))"

subsection \<open>Reading a generated script\<close>

text \<open>The manifest paths a script applies, the paths it deletes and the releases it
  installs, each in the order of the writes.\<close>

fun applied_manifest :: "cmd \<Rightarrow> string list" where
  "applied_manifest (KubectlApply m) = [m]"
| "applied_manifest _ = []"

fun deleted_manifest :: "cmd \<Rightarrow> string list" where
  "deleted_manifest (KubectlDelete m) = [m]"
| "deleted_manifest (KubectlDeleteIfExists m) = [m]"
| "deleted_manifest _ = []"

fun installed_release :: "cmd \<Rightarrow> string list" where
  "installed_release (HelmInstall release chart values) = [release]"
| "installed_release _ = []"

definition applied_manifests :: "cmd list \<Rightarrow> string list" where
  "applied_manifests script = concat (map applied_manifest script)"

definition deleted_manifests :: "cmd list \<Rightarrow> string list" where
  "deleted_manifests script = concat (map deleted_manifest script)"

definition installed_releases :: "cmd list \<Rightarrow> string list" where
  "installed_releases script = concat (map installed_release script)"

text \<open>The commands of a script: every write but plain text.\<close>

fun is_text :: "cmd \<Rightarrow> bool" where
  "is_text (Text t) = True"
| "is_text _ = False"

definition commands :: "cmd list \<Rightarrow> cmd list" where
  "commands script = filter (\<lambda>c. \<not> is_text c) script"

text \<open>The releases the chart table knows, with their chart and values file.\<close>

definition has_chart :: "string \<Rightarrow> bool" where
  "has_chart release = (release \<in> set (map fst helm_charts))"

definition chart_of :: "string \<Rightarrow> string" where
  "chart_of release = (case map_of helm_charts release of Some chart \<Rightarrow> chart | None \<Rightarrow> [])"

definition values_of :: "string \<Rightarrow> string" where
  "values_of release = (case map_of helm_values release of Some v \<Rightarrow> v | None \<Rightarrow> [])"

text \<open>The scripts of a generator run; no script when nothing was written.\<close>

fun sh_of :: "py_error + script_files option \<Rightarrow> cmd list" where
  "sh_of (Inr (Some r)) = script_sh r"
| "sh_of _ = []"

fun ps1_of :: "py_error + script_files option \<Rightarrow> cmd list" where
  "ps1_of (Inr (Some r)) = script_ps1 r"
| "ps1_of _ = []"

fun generated :: "py_error + script_files option \<Rightarrow> bool" where
  "generated (Inr (Some r)) = True"
| "generated _ = False"

text \<open>The line that deletes the persistent-volume claims, the same in both dialects, and
  the notice written in its place.\<close>

definition pvc_delete_line :: string where
  "pvc_delete_line = ''kubectl delete pvc --all -n default --ignore-not-found=true\<newline>''"

definition pvc_notice :: string where
  "pvc_notice =
     quoted ''PersistentVolumeClaims preserved (wolfram-state and other PVCs retained).''
       @ ''\<newline>''"

section \<open>Image extraction\<close>

text \<open>
  What \<^verbatim>\<open>_extract_images_from_manifests\<close> reads of a manifest, as far as its control flow
  can tell the inputs apart. The value of \<^verbatim>\<open>c.get("image")\<close> is a string, or a value
  that is falsy without being a string (absent, \<^verbatim>\<open>None\<close>), or a truthy value of another
  type, on which \<^verbatim>\<open>image.split\<close> raises. A list entry that is not a mapping makes
  \<^verbatim>\<open>c.get\<close> raise. A truthy \<^verbatim>\<open>containers\<close> value that is not a list raises before any of
  its images is read, as the list \<open>[NotAMapping]\<close> does.
\<close>

datatype image_field = NoImage | ImageStr string | ImageOther

datatype container = Container image_field | NotAMapping

text \<open>The result of walking from \<^verbatim>\<open>spec\<close> to the pod template: the walk raises (a level
  that is not a mapping), or it yields the \<^verbatim>\<open>containers\<close> and the \<^verbatim>\<open>initContainers\<close>,
  each empty when absent or null.\<close>

datatype pod_template = TemplateError | Template "container list" "container list"

text \<open>A mapping document: its \<^verbatim>\<open>kind\<close>, the pod template under
  \<^verbatim>\<open>spec.template.spec\<close> and the one under \<^verbatim>\<open>spec.jobTemplate.spec.template.spec\<close>.\<close>

record k8s_doc =
  doc_kind :: string
  doc_template :: pod_template
  doc_job_template :: pod_template

text \<open>What \<^verbatim>\<open>yaml.safe_load_all\<close> yields one after the other: a mapping, a document of
  another type, or a parse error raised at this point of the stream.\<close>

datatype yaml_item = Document k8s_doc | NonMapping | YamlError

datatype manifest_file = Missing | Unreadable | Stream "yaml_item list"

text \<open>The loops over \<^verbatim>\<open>containers\<close> and \<^verbatim>\<open>initContainers\<close>. The result is the list
  \<^verbatim>\<open>images\<close> after the loop, and whether an exception left it early.\<close>

fun scan_containers :: "container list \<Rightarrow> string list \<Rightarrow> string list \<times> bool" where
  "scan_containers [] images = (images, False)"
| "scan_containers (NotAMapping # cs) images = (images, True)"
| "scan_containers (Container NoImage # cs) images = scan_containers cs images"
| "scan_containers (Container ImageOther # cs) images = (images, True)"
| "scan_containers (Container (ImageStr img) # cs) images =
     (if img \<noteq> []
      then scan_containers cs (images @ [takeWhile (\<lambda>c. c \<noteq> CHR ''@'') img])
      else scan_containers cs images)"

definition workload_kinds :: "string list" where
  "workload_kinds = [''Deployment'', ''StatefulSet'', ''DaemonSet'', ''Job'', ''CronJob'']"

definition scan_doc :: "k8s_doc \<Rightarrow> string list \<Rightarrow> string list \<times> bool" where
  "scan_doc doc images =
     (if doc_kind doc \<in> set workload_kinds then
        (case (if doc_kind doc = ''CronJob'' then doc_job_template doc else doc_template doc) of
           TemplateError \<Rightarrow> (images, True)
         | Template containers initContainers \<Rightarrow>
             (case scan_containers containers images of
                (images', True) \<Rightarrow> (images', True)
              | (images', False) \<Rightarrow> scan_containers initContainers images'))
      else (images, False))"

text \<open>The loop over the documents of one file; an exception ends the work on the file and
  keeps what \<^verbatim>\<open>images\<close> holds.\<close>

fun scan_stream :: "yaml_item list \<Rightarrow> string list \<Rightarrow> string list" where
  "scan_stream [] images = images"
| "scan_stream (YamlError # rest) images = images"
| "scan_stream (NonMapping # rest) images = scan_stream rest images"
| "scan_stream (Document doc # rest) images =
     (case scan_doc doc images of
        (images', True) \<Rightarrow> images'
      | (images', False) \<Rightarrow> scan_stream rest images')"

text \<open>The loop over the paths, on a file system \<open>fs\<close>.\<close>

fun scan_paths :: "(string \<Rightarrow> manifest_file) \<Rightarrow> string list \<Rightarrow> string list \<Rightarrow> string list" where
  "scan_paths fs [] images = images"
| "scan_paths fs (path # rest) images =
     (case fs path of
        Missing \<Rightarrow> scan_paths fs rest images
      | Unreadable \<Rightarrow> scan_paths fs rest images
      | Stream items \<Rightarrow> scan_paths fs rest (scan_stream items images))"

definition extract_images_from_manifests :: "(string \<Rightarrow> manifest_file) \<Rightarrow> string list \<Rightarrow> string list" where
  "extract_images_from_manifests fs manifest_paths =
     sorted_set (filter (\<lambda>img. str_in '':'' img \<and> suffix '':latest'' img)
                   (scan_paths fs manifest_paths []))"

text \<open>The image string of a container entry, if it has one.\<close>

fun container_image :: "container \<Rightarrow> string list" where
  "container_image (Container (ImageStr img)) = [img]"
| "container_image _ = []"

text \<open>
  The image strings that extraction reads, said without the loops. In a list of
  containers these are the strings up to the first entry that raises; a pod template
  gives those of its containers and, if none of them raised, those of its init
  containers; a document gives those of the template its kind selects, a document that
  is no workload none; a stream gives those of its items up to and including the first
  item that raises; a file that is missing or unreadable gives none.
\<close>

fun entry_ok :: "container \<Rightarrow> bool" where
  "entry_ok (Container NoImage) = True"
| "entry_ok (Container (ImageStr img)) = True"
| "entry_ok (Container ImageOther) = False"
| "entry_ok NotAMapping = False"

definition containers_read :: "container list \<Rightarrow> string list" where
  "containers_read cs = concat (map container_image (takeWhile entry_ok cs))"

definition containers_ok :: "container list \<Rightarrow> bool" where
  "containers_ok cs = list_all entry_ok cs"

fun template_read :: "pod_template \<Rightarrow> string list" where
  "template_read TemplateError = []"
| "template_read (Template containers initContainers) =
     containers_read containers
     @ (if containers_ok containers then containers_read initContainers else [])"

fun template_ok :: "pod_template \<Rightarrow> bool" where
  "template_ok TemplateError = False"
| "template_ok (Template containers initContainers) =
     (containers_ok containers \<and> containers_ok initContainers)"

definition selected_template :: "k8s_doc \<Rightarrow> pod_template" where
  "selected_template doc =
     (if doc_kind doc = ''CronJob'' then doc_job_template doc else doc_template doc)"

definition is_workload :: "k8s_doc \<Rightarrow> bool" where
  "is_workload doc = (doc_kind doc \<in> set workload_kinds)"

fun item_read :: "yaml_item \<Rightarrow> string list" where
  "item_read (Document doc) =
     (if is_workload doc then template_read (selected_template doc) else [])"
| "item_read _ = []"

fun item_ok :: "yaml_item \<Rightarrow> bool" where
  "item_ok (Document doc) = (if is_workload doc then template_ok (selected_template doc) else True)"
| "item_ok NonMapping = True"
| "item_ok YamlError = False"

definition stream_read :: "yaml_item list \<Rightarrow> string list" where
  "stream_read items =
     concat (map item_read (takeWhile item_ok items))
     @ (case dropWhile item_ok items of [] \<Rightarrow> [] | bad # rest \<Rightarrow> item_read bad)"

fun file_read :: "manifest_file \<Rightarrow> string list" where
  "file_read (Stream items) = stream_read items"
| "file_read _ = []"

definition read_images :: "(string \<Rightarrow> manifest_file) \<Rightarrow> string list \<Rightarrow> string list" where
  "read_images fs manifest_paths = concat (map (\<lambda>path. file_read (fs path)) manifest_paths)"

text \<open>\<^verbatim>\<open>image.split("@")[0]\<close>.\<close>

definition strip_digest :: "string \<Rightarrow> string" where
  "strip_digest img = takeWhile (\<lambda>c. c \<noteq> CHR ''@'') img"

text \<open>The tag of a reference: what follows its last colon.\<close>

definition image_tag :: "string \<Rightarrow> string" where
  "image_tag img = rev (takeWhile (\<lambda>c. c \<noteq> CHR '':'') (rev img))"

text \<open>A file system with one manifest: a Deployment whose only container is pinned by
  digest.\<close>

definition pinned_fs :: "string \<Rightarrow> manifest_file" where
  "pinned_fs path =
     (if path = ''apps/web.yaml'' then
        Stream [Document
          \<lparr>doc_kind = ''Deployment'',
           doc_template = Template [Container (ImageStr ''web:latest@sha256:0a1b'')] [],
           doc_job_template = Template [] []\<rparr>]
      else Missing)"

text \<open>A file system with a multi-document manifest, a manifest whose second document is
  malformed half-way, and an unreadable file.\<close>

definition sample_fs :: "string \<Rightarrow> manifest_file" where
  "sample_fs path =
     (if path = ''apps/web.yaml'' then
        Stream [Document
          \<lparr>doc_kind = ''Deployment'',
           doc_template =
             Template [Container (ImageStr ''web:latest''), Container (ImageStr ''nginx:1.25'')]
                      [Container (ImageStr ''init:latest@sha256:77'')],
           doc_job_template = Template [] []\<rparr>,
          Document
          \<lparr>doc_kind = ''Service'',
           doc_template = Template [Container (ImageStr ''ignored:latest'')] [],
           doc_job_template = Template [] []\<rparr>]
      else if path = ''apps/job.yaml'' then
        Stream [NonMapping,
          Document
          \<lparr>doc_kind = ''CronJob'',
           doc_template = TemplateError,
           doc_job_template =
             Template [Container (ImageStr ''news-ingestion-job:latest''), NotAMapping,
                       Container (ImageStr ''unreached:latest'')] []\<rparr>,
          Document
          \<lparr>doc_kind = ''Job'',
           doc_template = Template [Container (ImageStr ''skipped:latest'')] [],
           doc_job_template = Template [] []\<rparr>]
      else if path = ''apps/broken.yaml'' then Unreadable
      else Missing)"

section \<open>The readiness monitor\<close>

subsection \<open>Pod signals\<close>

text \<open>
  A container status as the monitor reads it: \<^verbatim>\<open>restartCount\<close>, and for each of the keys
  \<^verbatim>\<open>waiting\<close> and \<^verbatim>\<open>terminated\<close> of \<^verbatim>\<open>state\<close> whether it is present and with which
  reason. The empty reason stands for a reason that is absent or null: \<^verbatim>\<open>or\<close> treats the
  three alike.
\<close>

record container_status =
  restartCount :: int
  waiting :: "string option"
  terminated :: "string option"

text \<open>A pod: \<^verbatim>\<open>metadata.name\<close>, its container statuses, and the kind and name of each
  owner reference, in the order of the list.\<close>

record pod =
  pod_name :: string
  containerStatuses :: "container_status list"
  ownerReferences :: "(string \<times> string) list"

text \<open>The two dictionaries of one tick.\<close>

record pod_maps =
  restarts_map :: "string \<rightharpoonup> int"
  owner_reason_map :: "string \<rightharpoonup> string"

text \<open>The loop over the container statuses of one pod: the running sum of the restart
  counts and the dictionary of reasons, which the pod's own name indexes here.\<close>

fun scan_statuses ::
  "string \<Rightarrow> container_status list \<Rightarrow> int \<times> (string \<rightharpoonup> string) \<Rightarrow> int \<times> (string \<rightharpoonup> string)" where
  "scan_statuses key [] acc = acc"
| "scan_statuses key (cs # rest) (restarts, reasons) =
     (let reasons1 =
            (case waiting cs of
               None \<Rightarrow> reasons
             | Some r \<Rightarrow>
                 (let reason = (if r = [] then ''waiting'' else r) in
                  if reason \<notin> set [''ContainerCreating'', ''PodInitializing'']
                  then reasons(key \<mapsto> reason) else reasons));
          reasons2 =
            (case terminated cs of
               None \<Rightarrow> reasons1
             | Some r \<Rightarrow> reasons1(key \<mapsto> (if r = [] then ''terminated'' else r)))
      in scan_statuses key rest (restarts + restartCount cs, reasons2))"

text \<open>The loop over the owner references: the name of the last reference of kind
  \<^verbatim>\<open>ReplicaSet\<close> or \<^verbatim>\<open>StatefulSet\<close>.\<close>

fun find_owner :: "(string \<times> string) list \<Rightarrow> string option \<Rightarrow> string option" where
  "find_owner [] owner = owner"
| "find_owner ((ref_kind, ref_name) # rest) owner =
     find_owner rest
       (if ref_kind \<in> set [''ReplicaSet'', ''StatefulSet''] then Some ref_name else owner)"

text \<open>\<^verbatim>\<open>owner.split("-")[0] if "-" in owner else owner\<close>.\<close>

definition owner_prefix_of :: "string \<Rightarrow> string" where
  "owner_prefix_of owner =
     (if str_in ''-'' owner then takeWhile (\<lambda>c. c \<noteq> CHR ''-'') owner else owner)"

text \<open>The body of the loop over the pods.\<close>

definition scan_pod :: "pod \<Rightarrow> pod_maps \<Rightarrow> pod_maps" where
  "scan_pod p maps =
     (case scan_statuses (pod_name p) (containerStatuses p) (0, owner_reason_map maps) of
        (restarts, reasons) \<Rightarrow>
          (case find_owner (ownerReferences p) None of
             None \<Rightarrow> maps\<lparr>owner_reason_map := reasons\<rparr>
           | Some owner \<Rightarrow>
               if owner = [] then maps\<lparr>owner_reason_map := reasons\<rparr>
               else
                 (let owner_prefix = owner_prefix_of owner;
                      restarts_map' = (restarts_map maps)(owner_prefix \<mapsto>
                        (case restarts_map maps owner_prefix of None \<Rightarrow> 0 | Some n \<Rightarrow> n)
                        + restarts);
                      pod_reason = reasons (pod_name p)
                  in \<lparr>restarts_map = restarts_map',
                      owner_reason_map =
                        (case pod_reason of
                           None \<Rightarrow> reasons
                         | Some reason \<Rightarrow>
                             if reason \<noteq> [] \<and> reasons owner_prefix = None
                             then reasons(owner_prefix \<mapsto> reason) else reasons)\<rparr>)))"

fun scan_pods :: "pod list \<Rightarrow> pod_maps \<Rightarrow> pod_maps" where
  "scan_pods [] maps = maps"
| "scan_pods (p # rest) maps = scan_pods rest (scan_pod p maps)"

definition pod_signals :: "pod list \<Rightarrow> pod_maps" where
  "pod_signals pods = scan_pods pods \<lparr>restarts_map = Map.empty, owner_reason_map = Map.empty\<rparr>"

subsection \<open>Controllers and the polling loop\<close>

text \<open>An entry of \<^verbatim>\<open>load_statuses\<close>.\<close>

record controller =
  kind :: string
  name :: string
  ready :: int
  replicas :: int

definition is_ready :: "controller \<Rightarrow> bool" where
  "is_ready s = (ready s \<ge> replicas s \<and> replicas s > 0)"

text \<open>What the table shows for a controller: the restart count and the reason found
  under the controller's name.\<close>

definition restart_count :: "pod_maps \<Rightarrow> controller \<Rightarrow> int" where
  "restart_count maps s = (case restarts_map maps (name s) of None \<Rightarrow> 0 | Some n \<Rightarrow> n)"

definition shown_reason :: "pod_maps \<Rightarrow> controller \<Rightarrow> string option" where
  "shown_reason maps s = owner_reason_map maps (name s)"

text \<open>The counters \<^verbatim>\<open>total\<close> and \<^verbatim>\<open>ready_count\<close> after the loop over the statuses, and
  the first exit test.\<close>

definition total :: "controller list \<Rightarrow> nat" where
  "total statuses = length statuses"

definition ready_count :: "controller list \<Rightarrow> nat" where
  "ready_count statuses = length (filter is_ready statuses)"

definition converged :: "controller list \<Rightarrow> bool" where
  "converged statuses = (total statuses > 0 \<and> ready_count statuses = total statuses)"

text \<open>
  What the cluster and the clock show in one pass of the loop: the statuses loaded at its
  start and the reading of \<^verbatim>\<open>time.time()\<close> in its timeout test, in seconds.
\<close>

record tick =
  statuses :: "controller list"
  clock :: real

datatype exit = Converged | TimedOut

text \<open>
  The \<^verbatim>\<open>while True\<close> loop of \<^verbatim>\<open>wait_for_readiness\<close> on an environment \<open>env\<close> that gives
  the observations of pass \<open>n\<close>, or \<open>None\<close> when one of the \<^verbatim>\<open>kubectl\<close> calls of that pass
  does not return (\<^verbatim>\<open>subprocess.run\<close> is given no timeout and waits for the process). The
  result is the \<^verbatim>\<open>break\<close> taken and the pass in which it was taken; \<open>None\<close> is a loop that
  never leaves.
\<close>

partial_function (option) wait_loop :: "(nat \<Rightarrow> tick option) \<Rightarrow> real \<Rightarrow> real \<Rightarrow> nat \<Rightarrow> (exit \<times> nat) option" where
  "wait_loop env start timeout_seconds n =
     (case env n of
        None \<Rightarrow> None
      | Some t \<Rightarrow>
          if converged (statuses t) then Some (Converged, n)
          else if clock t - start \<ge> timeout_seconds then Some (TimedOut, n)
          else wait_loop env start timeout_seconds (Suc n))"

text \<open>\<^verbatim>\<open>wait_for_readiness(timeout_seconds=600)\<close>; \<open>start\<close> is the clock reading taken before
  the loop.\<close>

definition wait_for_readiness :: "(nat \<Rightarrow> tick option) \<Rightarrow> real \<Rightarrow> int option \<Rightarrow> (exit \<times> nat) option" where
  "wait_for_readiness env start timeout_seconds =
     wait_loop env start (real_of_int (case timeout_seconds of None \<Rightarrow> 600 | Some t \<Rightarrow> t)) 0"

text \<open>Whether the loop can leave in pass \<open>n\<close> of a run whose passes all complete, with the
  observations \<open>obs\<close>.\<close>

definition leaves :: "(nat \<Rightarrow> tick) \<Rightarrow> real \<Rightarrow> real \<Rightarrow> nat \<Rightarrow> bool" where
  "leaves obs start timeout_seconds n =
     (converged (statuses (obs n)) \<or> clock (obs n) - start \<ge> timeout_seconds)"

text \<open>Observations for examples: one Deployment that is ready from the first pass, and one
  that never is, each with a clock that advances one second per pass; and an environment
  whose first pass sees the Deployment not ready and whose second pass waits for
  \<^verbatim>\<open>kubectl\<close> for ever.\<close>

definition ready_obs :: "nat \<Rightarrow> tick" where
  "ready_obs n =
     \<lparr>statuses = [\<lparr>kind = ''Deployment'', name = ''web'', ready = 1, replicas = 1\<rparr>],
      clock = 100 + real n\<rparr>"

definition stuck_obs :: "nat \<Rightarrow> tick" where
  "stuck_obs n =
     \<lparr>statuses = [\<lparr>kind = ''Deployment'', name = ''web'', ready = 0, replicas = 1\<rparr>],
      clock = 100 + real n\<rparr>"

definition hung_env :: "nat \<Rightarrow> tick option" where
  "hung_env n = (if n = 0 then Some (stuck_obs 0) else None)"

chapter \<open>Verification\<close>

section \<open>Group resolution\<close>

lemma collect_resources_eq:
  "collect_resources k sel (ms, hs) =
     (ms @ concat (map (\<lambda>g. map (os_path_join k) (group_manifests g)) sel),
      hs @ concat (map group_helm_releases sel))"
  by (induction sel arbitrary: ms hs) simp_all

lemma sorted_set_eq: "sorted_set xs = sorted_list_of_set (set xs)"
  by (simp add: sorted_set_def sorted_list_of_set_sort_remdups)

lemma sorted_set_cong: "set xs = set ys \<Longrightarrow> sorted_set xs = sorted_set ys"
  by (simp add: sorted_set_eq)

lemma set_sorted_set [simp]: "set (sorted_set xs) = set xs"
  by (simp add: sorted_set_def)

lemma sorted_sorted_set [simp]: "sorted (sorted_set xs)"
  by (simp add: sorted_set_def)

lemma distinct_sorted_set [simp]: "distinct (sorted_set xs)"
  by (simp add: sorted_set_def)

lemma fst_get_group_resources:
  "fst (get_group_resources k sel) =
     sorted_set (concat (map (\<lambda>g. map (os_path_join k) (group_manifests g)) sel))"
  by (simp add: get_group_resources_def collect_resources_eq)

lemma snd_get_group_resources:
  "snd (get_group_resources k sel) = sorted_set (concat (map group_helm_releases sel))"
  by (simp add: get_group_resources_def collect_resources_eq)

lemma known_group_iff:
  "known_group g \<longleftrightarrow>
     g \<in> {''Stateful Backend'', ''Messaging'', ''Core Applications'', ''Scheduling App'',
          ''News Ingestion Job''}"
  by (auto simp: known_group_def K8S_SERVICE_GROUPS_def)

lemma unknown_group_empty:
  assumes "\<not> known_group g"
  shows "group_manifests g = [] \<and> group_helm_releases g = []"
proof -
  from assms have "map_of K8S_SERVICE_GROUPS g = None"
    unfolding known_group_def by (simp add: map_of_eq_None_iff)
  then show ?thesis by (simp add: group_manifests_def group_helm_releases_def)
qed

text \<open>
  C3. Resolving a selection whose names are those of \<open>g1\<close> together with those of \<open>g2\<close>
  gives, for the manifests and for the releases, the sorted duplicate-free union of what
  \<open>g1\<close> and \<open>g2\<close> resolve to; both returned lists are sorted and without duplicates.
\<close>

theorem get_group_resources_union:
  assumes "set sel = set g1 \<union> set g2"
  shows "fst (get_group_resources k sel) =
           sorted_set (fst (get_group_resources k g1) @ fst (get_group_resources k g2))
       \<and> snd (get_group_resources k sel) =
           sorted_set (snd (get_group_resources k g1) @ snd (get_group_resources k g2))
       \<and> sorted (fst (get_group_resources k sel)) \<and> distinct (fst (get_group_resources k sel))
       \<and> sorted (snd (get_group_resources k sel)) \<and> distinct (snd (get_group_resources k sel))"
proof -
  have m: "fst (get_group_resources k sel) =
           sorted_set (fst (get_group_resources k g1) @ fst (get_group_resources k g2))"
    unfolding fst_get_group_resources using assms by (intro sorted_set_cong) auto
  have h: "snd (get_group_resources k sel) =
           sorted_set (snd (get_group_resources k g1) @ snd (get_group_resources k g2))"
    unfolding snd_get_group_resources using assms by (intro sorted_set_cong) auto
  show ?thesis using m h by (simp add: fst_get_group_resources snd_get_group_resources)
qed

theorem get_group_resources_union_witness:
  "set [''Messaging'', ''Stateful Backend'', ''Messaging'']
     = set [''Stateful Backend'', ''Messaging''] \<union> set [''Messaging'']
   \<and> fst (get_group_resources ''/k'' [''Messaging'', ''Stateful Backend'', ''Messaging''])
     = [''/k/apps/kafka.yaml'', ''/k/apps/zookeeper.yaml'',
        ''/k/secrets/minio-secret.yaml'', ''/k/secrets/postgres-secret.yaml'']
   \<and> snd (get_group_resources ''/k'' [''Messaging'', ''Stateful Backend'', ''Messaging''])
     = [''minio'', ''postgres-metastore'', ''redis'']"
proof -
  have s: "set [''Messaging'', ''Stateful Backend'', ''Messaging'']
     = set [''Stateful Backend'', ''Messaging''] \<union> set [''Messaging'']"
    by auto
  have a: "get_group_resources ''/k'' [''Stateful Backend'', ''Messaging''] =
    ([''/k/apps/kafka.yaml'', ''/k/apps/zookeeper.yaml'',
      ''/k/secrets/minio-secret.yaml'', ''/k/secrets/postgres-secret.yaml''],
     [''minio'', ''postgres-metastore'', ''redis''])"
    by code_simp
  have b: "get_group_resources ''/k'' [''Messaging''] =
    ([''/k/apps/kafka.yaml'', ''/k/apps/zookeeper.yaml''], [''redis''])"
    by code_simp
  have c: "sorted_set ([''/k/apps/kafka.yaml'', ''/k/apps/zookeeper.yaml'',
        ''/k/secrets/minio-secret.yaml'', ''/k/secrets/postgres-secret.yaml'']
        @ [''/k/apps/kafka.yaml'', ''/k/apps/zookeeper.yaml'']) =
      [''/k/apps/kafka.yaml'', ''/k/apps/zookeeper.yaml'',
       ''/k/secrets/minio-secret.yaml'', ''/k/secrets/postgres-secret.yaml'']"
    by code_simp
  have d: "sorted_set ([''minio'', ''postgres-metastore'', ''redis''] @ [''redis'']) =
      [''minio'', ''postgres-metastore'', ''redis'']"
    by code_simp
  from get_group_resources_union[OF s, of "''/k''"] show ?thesis
    unfolding a b using c d s by simp
qed

text \<open>
  C8. Group resolution is a total function. A name that is not a key of the catalog
  contributes nothing: the result is that of the known names of the selection alone, and
  dropping one unknown name from anywhere in the selection leaves the result unchanged.
\<close>

theorem get_group_resources_unknown_skipped:
  "get_group_resources k sel = get_group_resources k (filter known_group sel)
   \<and> (\<not> known_group g \<longrightarrow>
        get_group_resources k (pre @ g # post) = get_group_resources k (pre @ post))"
proof -
  have c: "concat (map f sel) = concat (map f (filter known_group sel))"
    if "\<And>g. \<not> known_group g \<Longrightarrow> f g = []" for f :: "string \<Rightarrow> string list" and sel
    using that by (induction sel) simp_all
  have e: "get_group_resources k sel = get_group_resources k (filter known_group sel)" for sel
    using c[of "\<lambda>g. map (os_path_join k) (group_manifests g)" sel] c[of group_helm_releases sel]
    by (simp add: get_group_resources_def collect_resources_eq unknown_group_empty)
  have "\<not> known_group g \<Longrightarrow>
        get_group_resources k (pre @ g # post) = get_group_resources k (pre @ post)"
    using e[of "pre @ g # post"] e[of "pre @ post"] by simp
  with e show ?thesis by blast
qed

theorem get_group_resources_unknown_skipped_witness:
  "\<not> known_group ''Bogus''
   \<and> get_group_resources ''/k'' [''Messaging'', ''Bogus''] =
       get_group_resources ''/k'' [''Messaging'']
   \<and> get_group_resources ''/k'' [''Bogus''] = ([], [])"
proof -
  have u: "\<not> known_group ''Bogus''"
    by (simp add: known_group_iff)
  have "get_group_resources ''/k'' ([''Messaging''] @ ''Bogus'' # []) =
          get_group_resources ''/k'' ([''Messaging''] @ [])"
    and "get_group_resources ''/k'' ([] @ ''Bogus'' # []) = get_group_resources ''/k'' ([] @ [])"
    using get_group_resources_unknown_skipped[of "''/k''" "[]" "''Bogus''" "[''Messaging'']" "[]"]
      get_group_resources_unknown_skipped[of "''/k''" "[]" "''Bogus''" "[]" "[]"] u
    by blast+
  moreover have "get_group_resources ''/k'' [] = ([], [])"
    by code_simp
  ultimately show ?thesis using u by simp
qed

section \<open>Deploy scripts\<close>

lemma generatedE: "generated x \<Longrightarrow> \<exists>r. x = Inr (Some r)"
  by (cases x rule: generated.cases) simp_all

lemma helm_install_cmd_eq:
  "helm_install_cmd K rel =
     (if has_chart rel then [HelmInstall rel (chart_of rel) (os_path_join K (values_of rel))]
      else [])"
  by (simp add: helm_install_cmd_def has_chart_def chart_of_def values_of_def
      helm_charts_def helm_values_def)

lemma concat_helm_install_cmd:
  "concat (map (helm_install_cmd K) hs) =
     map (\<lambda>rel. HelmInstall rel (chart_of rel) (os_path_join K (values_of rel)))
       (filter has_chart hs)"
  by (induction hs) (simp_all add: helm_install_cmd_eq)

lemma commands_append [simp]: "commands (xs @ ys) = commands xs @ commands ys"
  by (simp add: commands_def)

lemma commands_Cons_Text [simp]: "commands (Text t # xs) = commands xs"
  by (simp add: commands_def)

lemma commands_Nil [simp]: "commands [] = []"
  by (simp add: commands_def)

lemma commands_map_KubectlApply [simp]: "commands (map KubectlApply xs) = map KubectlApply xs"
  by (induction xs) (simp_all add: commands_def)

lemma commands_helm_section:
  "commands (helm_section K hs) =
     (if hs = [] then []
      else [HelmRepoAdd ''bitnami'' ''https://charts.bitnami.com/bitnami'',
            HelmRepoAdd ''minio'' ''https://charts.min.io/'', HelmRepoUpdate])
     @ map (\<lambda>rel. HelmInstall rel (chart_of rel) (os_path_join K (values_of rel)))
         (filter has_chart hs)"
  by (simp add: helm_section_def concat_helm_install_cmd) (simp add: commands_def)

lemma commands_deploy_script_sh:
  "commands (deploy_script_sh K sel ms hs) =
     ClusterGuard # map KubectlApply (sort (filter is_secret_or_config ms))
     @ commands (helm_section K hs)
     @ map KubectlApply (sort (filter is_app ms))"
  by (simp add: deploy_script_sh_def Let_def) (simp add: commands_def)

lemma commands_deploy_script_ps1:
  "commands (deploy_script_ps1 K sel ms hs) =
     ClusterGuard # map KubectlApply (sort (filter is_secret_or_config ms))
     @ commands (helm_section K hs)
     @ map KubectlApply (sort (filter is_app ms))"
  by (simp add: deploy_script_ps1_def) (simp add: commands_def)

lemma last_deploy_script_ps1:
  "last (deploy_script_ps1 K sel ms hs) =
     Text (''Write-Host '' @ quoted ''Kubernetes deployment finished.'' @ ''\<newline>'')"
  by (simp add: deploy_script_ps1_def)

lemma generate_deploy_SomeD:
  assumes "generate_k8s_deploy_script K sel = Inr (Some r)"
  shows "sel \<noteq> []"
    and "fst (get_group_resources K sel) \<noteq> [] \<or> snd (get_group_resources K sel) \<noteq> []"
    and "script_sh r = deploy_script_sh K sel (fst (get_group_resources K sel))
                         (snd (get_group_resources K sel))"
    and "script_ps1 r = deploy_script_ps1 K sel (fst (get_group_resources K sel))
                          (snd (get_group_resources K sel))"
    and "\<exists>part. script_name_part sel = Inr part
            \<and> filename_sh r = ''deploy_k8s_'' @ part @ ''.sh''
            \<and> filename_ps1 r = ''deploy_k8s_'' @ part @ ''.ps1''"
  using assms
  by (auto simp: generate_k8s_deploy_script_def split: if_splits prod.splits sum.splits)

lemma last_deploy_script_sh:
  "last (deploy_script_sh K sel ms hs) =
     Text (''echo '' @ quoted ''Kubernetes deployment finished.'' @ ''\<newline>'')"
  by (simp add: deploy_script_sh_def Let_def)

text \<open>
  C1, as the code has it. The commands of a generated deploy script are, in this order:
  the reachability guard; one \<^verbatim>\<open>kubectl apply\<close> for every selected manifest whose path
  contains \<^verbatim>\<open>secrets/\<close> or \<^verbatim>\<open>config/\<close>, in ascending order; if any release is selected, the
  two repository additions and the repository update, then one \<^verbatim>\<open>helm install\<close> for every
  selected release that has an entry in the chart table (a release without an entry gets
  no command); one \<^verbatim>\<open>kubectl apply\<close> for every selected manifest whose path contains
  \<^verbatim>\<open>apps/\<close>, in ascending order. The last write is the completion marker. The
  \<^verbatim>\<open>.ps1\<close> script has the same commands in the same order.
\<close>

theorem deploy_script_phase_order:
  assumes "generate_k8s_deploy_script K sel = Inr (Some r)"
  shows "commands (script_sh r) =
           ClusterGuard
           # map KubectlApply
               (sort (filter is_secret_or_config (fst (get_group_resources K sel))))
           @ (if snd (get_group_resources K sel) = [] then []
              else [HelmRepoAdd ''bitnami'' ''https://charts.bitnami.com/bitnami'',
                    HelmRepoAdd ''minio'' ''https://charts.min.io/'', HelmRepoUpdate])
           @ map (\<lambda>rel. HelmInstall rel (chart_of rel) (os_path_join K (values_of rel)))
               (filter has_chart (snd (get_group_resources K sel)))
           @ map KubectlApply (sort (filter is_app (fst (get_group_resources K sel))))
       \<and> last (script_sh r) =
           Text (''echo '' @ quoted ''Kubernetes deployment finished.'' @ ''\<newline>'')
       \<and> commands (script_ps1 r) = commands (script_sh r)
       \<and> last (script_ps1 r) =
           Text (''Write-Host '' @ quoted ''Kubernetes deployment finished.'' @ ''\<newline>'')"
  using generate_deploy_SomeD(3,4)[OF assms]
  by (simp add: commands_deploy_script_sh commands_deploy_script_ps1 commands_helm_section
      last_deploy_script_sh last_deploy_script_ps1)

theorem deploy_script_phase_order_witness:
  "commands (sh_of (generate_k8s_deploy_script ''/k'' [''Stateful Backend'', ''Messaging''])) =
     [ClusterGuard,
      KubectlApply ''/k/secrets/minio-secret.yaml'',
      KubectlApply ''/k/secrets/postgres-secret.yaml'',
      HelmRepoAdd ''bitnami'' ''https://charts.bitnami.com/bitnami'',
      HelmRepoAdd ''minio'' ''https://charts.min.io/'',
      HelmRepoUpdate,
      HelmInstall ''minio'' ''minio/minio'' ''/k/charts/minio/values.yaml'',
      HelmInstall ''postgres-metastore'' ''bitnami/postgresql''
        ''/k/charts/postgres/values.yaml'',
      HelmInstall ''redis'' ''bitnami/redis'' ''/k/charts/redis/values.yaml'',
      KubectlApply ''/k/apps/kafka.yaml'',
      KubectlApply ''/k/apps/zookeeper.yaml'']"
proof -
  have "generated (generate_k8s_deploy_script ''/k'' [''Stateful Backend'', ''Messaging''])"
    by code_simp
  then obtain r where
    r: "generate_k8s_deploy_script ''/k'' [''Stateful Backend'', ''Messaging''] = Inr (Some r)"
    using generatedE by blast
  have g: "get_group_resources ''/k'' [''Stateful Backend'', ''Messaging''] =
    ([''/k/apps/kafka.yaml'', ''/k/apps/zookeeper.yaml'',
      ''/k/secrets/minio-secret.yaml'', ''/k/secrets/postgres-secret.yaml''],
     [''minio'', ''postgres-metastore'', ''redis''])"
    by code_simp
  have a: "sort (filter is_secret_or_config [''/k/apps/kafka.yaml'', ''/k/apps/zookeeper.yaml'',
        ''/k/secrets/minio-secret.yaml'', ''/k/secrets/postgres-secret.yaml'']) =
      [''/k/secrets/minio-secret.yaml'', ''/k/secrets/postgres-secret.yaml'']"
    by code_simp
  have b: "sort (filter is_app [''/k/apps/kafka.yaml'', ''/k/apps/zookeeper.yaml'',
        ''/k/secrets/minio-secret.yaml'', ''/k/secrets/postgres-secret.yaml'']) =
      [''/k/apps/kafka.yaml'', ''/k/apps/zookeeper.yaml'']"
    by code_simp
  have c: "map (\<lambda>rel. HelmInstall rel (chart_of rel) (os_path_join ''/k'' (values_of rel)))
               (filter has_chart [''minio'', ''postgres-metastore'', ''redis'']) =
     [HelmInstall ''minio'' ''minio/minio'' ''/k/charts/minio/values.yaml'',
      HelmInstall ''postgres-metastore'' ''bitnami/postgresql''
        ''/k/charts/postgres/values.yaml'',
      HelmInstall ''redis'' ''bitnami/redis'' ''/k/charts/redis/values.yaml'']"
    by code_simp
  show ?thesis
    using deploy_script_phase_order[OF r] unfolding r g fst_conv snd_conv a b c by simp
qed

text \<open>
  C1, as the specification words it, asks for an install command for every selected
  release. The group \<^verbatim>\<open>Core Applications\<close> selects the release \<^verbatim>\<open>api-gateway\<close>, the chart
  table has no entry for it, and the generated script installs nothing under that name.
\<close>

theorem deploy_helm_install_counterexample:
  "''api-gateway'' \<in> set (snd (get_group_resources ''/repo/platform/k8s'' [''Core Applications'']))
   \<and> generated (generate_k8s_deploy_script ''/repo/platform/k8s'' [''Core Applications''])
   \<and> ''api-gateway'' \<notin> set (installed_releases
         (sh_of (generate_k8s_deploy_script ''/repo/platform/k8s'' [''Core Applications''])))"
  by code_simp

section \<open>Destroy scripts\<close>

lemma generate_destroy_SomeD:
  assumes "generate_k8s_destroy_script K sel p = Inr (Some r)"
  shows "sel \<noteq> []"
    and "fst (get_group_resources K sel) \<noteq> [] \<or> snd (get_group_resources K sel) \<noteq> []"
    and "script_sh r = destroy_script_sh sel (fst (get_group_resources K sel))
                         (snd (get_group_resources K sel)) p"
    and "script_ps1 r = destroy_script_ps1 sel (fst (get_group_resources K sel))
                          (snd (get_group_resources K sel)) p"
    and "\<exists>part. script_name_part sel = Inr part
            \<and> filename_sh r = ''destroy_k8s_'' @ part @ ''.sh''
            \<and> filename_ps1 r = ''destroy_k8s_'' @ part @ ''.ps1''"
  using assms
  by (auto simp: generate_k8s_destroy_script_def split: if_splits prod.splits sum.splits)

lemma applied_manifests_append [simp]:
  "applied_manifests (xs @ ys) = applied_manifests xs @ applied_manifests ys"
  by (simp add: applied_manifests_def)

lemma applied_manifests_Cons [simp]:
  "applied_manifests (c # xs) = applied_manifest c @ applied_manifests xs"
  by (simp add: applied_manifests_def)

lemma applied_manifests_Nil [simp]: "applied_manifests [] = []"
  by (simp add: applied_manifests_def)

lemma applied_manifests_map_KubectlApply [simp]:
  "applied_manifests (map KubectlApply xs) = xs"
  by (induction xs) simp_all

lemma applied_manifests_helm_section [simp]: "applied_manifests (helm_section K hs) = []"
proof -
  have "applied_manifests (concat (map (helm_install_cmd K) hs)) = []"
    by (induction hs) (simp_all add: helm_install_cmd_eq)
  then show ?thesis by (simp add: helm_section_def)
qed

lemma applied_manifests_deploy_script_sh:
  "applied_manifests (deploy_script_sh K sel ms hs) =
     sort (filter is_secret_or_config ms) @ sort (filter is_app ms)"
  by (simp add: deploy_script_sh_def Let_def)

lemma applied_manifests_deploy_script_ps1:
  "applied_manifests (deploy_script_ps1 K sel ms hs) =
     sort (filter is_secret_or_config ms) @ sort (filter is_app ms)"
  by (simp add: deploy_script_ps1_def)

lemma deleted_manifests_append [simp]:
  "deleted_manifests (xs @ ys) = deleted_manifests xs @ deleted_manifests ys"
  by (simp add: deleted_manifests_def)

lemma deleted_manifests_Cons [simp]:
  "deleted_manifests (c # xs) = deleted_manifest c @ deleted_manifests xs"
  by (simp add: deleted_manifests_def)

lemma deleted_manifests_Nil [simp]: "deleted_manifests [] = []"
  by (simp add: deleted_manifests_def)

lemma deleted_manifests_map_KubectlDelete [simp]:
  "deleted_manifests (map KubectlDelete xs) = xs"
  by (induction xs) simp_all

lemma deleted_manifests_map_KubectlDeleteIfExists [simp]:
  "deleted_manifests (map KubectlDeleteIfExists xs) = xs"
  by (induction xs) simp_all

lemma deleted_manifests_map_HelmDelete [simp]:
  "deleted_manifests (map HelmDelete xs) = []"
  by (induction xs) simp_all

lemma deleted_manifests_sections [simp]:
  "deleted_manifests (helm_delete_section hs) = []"
  "deleted_manifests (secrets_delete_section ms) = sorted_reverse (filter is_secret ms)"
  "deleted_manifests (pvc_section_sh p) = []"
  "deleted_manifests (pvc_section_ps1 p) = []"
  by (simp_all add: helm_delete_section_def secrets_delete_section_def pvc_section_sh_def
      pvc_section_ps1_def Let_def sorted_reverse_def)

lemma deleted_manifests_destroy_script_sh:
  "deleted_manifests (destroy_script_sh sel ms hs p) =
     sorted_reverse (filter is_app_or_config ms) @ sorted_reverse (filter is_secret ms)"
  by (simp add: destroy_script_sh_def Let_def sorted_reverse_def)

lemma deleted_manifests_destroy_script_ps1:
  "deleted_manifests (destroy_script_ps1 sel ms hs p) =
     sorted_reverse (filter is_app_or_config ms) @ sorted_reverse (filter is_secret ms)"
  by (simp add: destroy_script_ps1_def)

text \<open>
  C2, as the specification words it, fails: for \<^verbatim>\<open>Core Applications\<close> the destroy script
  deletes the two config manifests first, while the reversed deploy order starts with the
  application manifests.
\<close>

theorem destroy_order_counterexample:
  "deleted_manifests (sh_of (generate_k8s_destroy_script ''/repo/platform/k8s'' [''Core Applications''] False))
   \<noteq> rev (applied_manifests (sh_of (generate_k8s_deploy_script ''/repo/platform/k8s'' [''Core Applications''])))"
  by code_simp

text \<open>
  C2, as the code has it. The deploy script applies the manifests with \<^verbatim>\<open>secrets/\<close> or
  \<^verbatim>\<open>config/\<close> in their path in ascending order, then those with \<^verbatim>\<open>apps/\<close>; the destroy
  script deletes the manifests with \<^verbatim>\<open>apps/\<close> or \<^verbatim>\<open>config/\<close> in descending order, then those
  with \<^verbatim>\<open>secrets/\<close> in descending order. Both scripts name the same set of paths, and the
  deleted sequence is the exact reverse of the applied one whenever no selected manifest
  path contains \<^verbatim>\<open>config/\<close>.
\<close>

theorem destroy_reverses_deploy:
  assumes "generate_k8s_deploy_script K sel = Inr (Some d)"
    and "generate_k8s_destroy_script K sel p = Inr (Some x)"
  shows "applied_manifests (script_sh d) =
           sort (filter is_secret_or_config (fst (get_group_resources K sel)))
           @ sort (filter is_app (fst (get_group_resources K sel)))
       \<and> deleted_manifests (script_sh x) =
           rev (sort (filter is_app_or_config (fst (get_group_resources K sel))))
           @ rev (sort (filter is_secret (fst (get_group_resources K sel))))
       \<and> set (deleted_manifests (script_sh x)) = set (applied_manifests (script_sh d))
       \<and> ((\<forall>m \<in> set (fst (get_group_resources K sel)). \<not> str_in ''config/'' m) \<longrightarrow>
            deleted_manifests (script_sh x) = rev (applied_manifests (script_sh d)))"
proof -
  let ?ms = "fst (get_group_resources K sel)"
  have a: "applied_manifests (script_sh d) =
      sort (filter is_secret_or_config ?ms) @ sort (filter is_app ?ms)"
    using generate_deploy_SomeD(3)[OF assms(1)] by (simp add: applied_manifests_deploy_script_sh)
  have b: "deleted_manifests (script_sh x) =
      rev (sort (filter is_app_or_config ?ms)) @ rev (sort (filter is_secret ?ms))"
    using generate_destroy_SomeD(3)[OF assms(2)]
    by (simp add: deleted_manifests_destroy_script_sh sorted_reverse_def)
  have c: "set (deleted_manifests (script_sh x)) = set (applied_manifests (script_sh d))"
    unfolding a b by (auto simp: is_app_or_config_def is_secret_def is_secret_or_config_def is_app_def)
  have e: "deleted_manifests (script_sh x) = rev (applied_manifests (script_sh d))"
    if n: "\<forall>m \<in> set ?ms. \<not> str_in ''config/'' m"
  proof -
    have "filter is_secret_or_config ?ms = filter is_secret ?ms"
      using n by (intro filter_cong) (auto simp: is_secret_or_config_def is_secret_def)
    moreover have "filter is_app_or_config ?ms = filter is_app ?ms"
      using n by (intro filter_cong) (auto simp: is_app_or_config_def is_app_def)
    ultimately show ?thesis unfolding a b by simp
  qed
  from a b c e show ?thesis by blast
qed

theorem destroy_reverses_deploy_witness:
  "filter (str_in ''config/'') (fst (get_group_resources ''/k'' [''Stateful Backend'', ''Messaging''])) = []
   \<and> deleted_manifests (sh_of (generate_k8s_destroy_script ''/k'' [''Stateful Backend'', ''Messaging''] False))
     = [''/k/apps/zookeeper.yaml'', ''/k/apps/kafka.yaml'',
        ''/k/secrets/postgres-secret.yaml'', ''/k/secrets/minio-secret.yaml'']
   \<and> applied_manifests (sh_of (generate_k8s_deploy_script ''/k'' [''Stateful Backend'', ''Messaging'']))
     = [''/k/secrets/minio-secret.yaml'', ''/k/secrets/postgres-secret.yaml'',
        ''/k/apps/kafka.yaml'', ''/k/apps/zookeeper.yaml'']"
proof -
  have "generated (generate_k8s_deploy_script ''/k'' [''Stateful Backend'', ''Messaging''])"
    by code_simp
  then obtain d where
    d: "generate_k8s_deploy_script ''/k'' [''Stateful Backend'', ''Messaging''] = Inr (Some d)"
    using generatedE by blast
  have "generated (generate_k8s_destroy_script ''/k'' [''Stateful Backend'', ''Messaging''] False)"
    by code_simp
  then obtain x where
    x: "generate_k8s_destroy_script ''/k'' [''Stateful Backend'', ''Messaging''] False = Inr (Some x)"
    using generatedE by blast
  have g: "get_group_resources ''/k'' [''Stateful Backend'', ''Messaging''] =
    ([''/k/apps/kafka.yaml'', ''/k/apps/zookeeper.yaml'',
      ''/k/secrets/minio-secret.yaml'', ''/k/secrets/postgres-secret.yaml''],
     [''minio'', ''postgres-metastore'', ''redis''])"
    by code_simp
  have n: "\<forall>m \<in> set (fst (get_group_resources ''/k'' [''Stateful Backend'', ''Messaging''])). \<not> str_in ''config/'' m"
    unfolding g by code_simp
  have a: "sort (filter is_secret_or_config [''/k/apps/kafka.yaml'', ''/k/apps/zookeeper.yaml'',
        ''/k/secrets/minio-secret.yaml'', ''/k/secrets/postgres-secret.yaml'']) =
      [''/k/secrets/minio-secret.yaml'', ''/k/secrets/postgres-secret.yaml'']"
    by code_simp
  have b: "sort (filter is_app [''/k/apps/kafka.yaml'', ''/k/apps/zookeeper.yaml'',
        ''/k/secrets/minio-secret.yaml'', ''/k/secrets/postgres-secret.yaml'']) =
      [''/k/apps/kafka.yaml'', ''/k/apps/zookeeper.yaml'']"
    by code_simp
  from destroy_reverses_deploy[OF d x] n
  have "applied_manifests (script_sh d) =
           sort (filter is_secret_or_config (fst (get_group_resources ''/k'' [''Stateful Backend'', ''Messaging''])))
           @ sort (filter is_app (fst (get_group_resources ''/k'' [''Stateful Backend'', ''Messaging''])))"
    and "deleted_manifests (script_sh x) = rev (applied_manifests (script_sh d))"
    by blast+
  moreover have "filter (str_in ''config/'')
      (fst (get_group_resources ''/k'' [''Stateful Backend'', ''Messaging''])) = []"
    using n by (simp add: filter_empty_conv)
  ultimately show ?thesis
    unfolding d x g fst_conv a b by simp
qed

section \<open>The persistent-volume-claim step\<close>

lemma destroy_script_sh_split:
  "\<exists>front. (\<forall>p. destroy_script_sh sel ms hs p =
                  front @ pvc_section_sh p
                  @ [Text (''echo '' @ quoted ''Kubernetes teardown finished.'' @ ''\<newline>'')])
           \<and> pvc_delete_line \<notin> render_sh ` set front"
proof -
  let ?front =
    "[Text ''#!/bin/bash\<newline># Destroys selected application components from Kubernetes.\<newline>set -e\<newline>\<newline>'',
      ClusterGuard,
      Text (''echo ''
        @ quoted (''Starting Kubernetes teardown for: '' @ str_join '', '' sel @ ''...'')
        @ ''\<newline>\<newline>'')]
     @ (if filter is_app_or_config ms \<noteq> [] then
          [Text ''# --- Deleting Applications and ConfigMaps ---\<newline>'']
          @ map KubectlDelete (sorted_reverse (filter is_app_or_config ms))
          @ [Text ''\<newline>'']
        else [])
     @ helm_delete_section hs
     @ secrets_delete_section ms"
  have "\<forall>p. destroy_script_sh sel ms hs p =
          ?front @ pvc_section_sh p
          @ [Text (''echo '' @ quoted ''Kubernetes teardown finished.'' @ ''\<newline>'')]"
    by (simp add: destroy_script_sh_def Let_def)
  moreover have "pvc_delete_line \<notin> render_sh ` set ?front"
    by (auto simp: pvc_delete_line_def helm_delete_section_def secrets_delete_section_def Let_def)
  ultimately show ?thesis by blast
qed

lemma destroy_script_ps1_split:
  "\<exists>front. (\<forall>p. destroy_script_ps1 sel ms hs p =
                  front @ pvc_section_ps1 p
                  @ [Text (''Write-Host '' @ quoted ''Kubernetes teardown finished.'' @ ''\<newline>'')])
           \<and> pvc_delete_line \<notin> render_ps1 ` set front"
proof -
  let ?front =
    "[Text ''Param()\<newline>'',
      Text (''$ErrorActionPreference = '' @ quoted ''Stop'' @ ''\<newline>''),
      Text (''Write-Host '' @ quoted (''Tearing down: '' @ str_join '', '' sel)
              @ ''\<newline>''),
      ClusterGuard,
      Text (''Write-Host '' @ quoted ''Starting Kubernetes teardown...''
              @ ''\<newline>\<newline>''),
      Text ''# --- Deleting Applications and ConfigMaps ---\<newline>'']
     @ map KubectlDelete (sorted_reverse (filter is_app_or_config ms))
     @ [Text ''\<newline>'']
     @ helm_delete_section hs
     @ secrets_delete_section ms"
  have "\<forall>p. destroy_script_ps1 sel ms hs p =
          ?front @ pvc_section_ps1 p
          @ [Text (''Write-Host '' @ quoted ''Kubernetes teardown finished.'' @ ''\<newline>'')]"
    by (simp add: destroy_script_ps1_def)
  moreover have "pvc_delete_line \<notin> render_ps1 ` set ?front"
    by (auto simp: pvc_delete_line_def helm_delete_section_def secrets_delete_section_def Let_def
        quoted_def)
  ultimately show ?thesis by blast
qed

lemma pvc_section_sh_line:
  "pvc_delete_line \<in> render_sh ` set (pvc_section_sh p) \<longleftrightarrow> \<not> p"
  by (simp add: pvc_section_sh_def pvc_delete_line_def)

lemma pvc_section_ps1_line:
  "pvc_delete_line \<in> render_ps1 ` set (pvc_section_ps1 p) \<longleftrightarrow> \<not> p"
  by (simp add: pvc_section_ps1_def pvc_delete_line_def)

lemma pvc_section_sh_eq:
  "pvc_section_sh p =
     (if p then [Text (''echo '' @ pvc_notice)]
      else [Text ''# --- Deleting PersistentVolumeClaims ---\<newline>'', KubectlDeletePvc,
            Text ''\<newline>''])"
  by (simp add: pvc_section_sh_def pvc_notice_def)

lemma pvc_section_ps1_eq:
  "pvc_section_ps1 p =
     (if p then [Text (''Write-Host '' @ pvc_notice)]
      else [Text ''# --- Deleting PersistentVolumeClaims ---\<newline>'', KubectlDeletePvc,
            Text ''\<newline>''])"
  by (simp add: pvc_section_ps1_def pvc_notice_def)

text \<open>
  C7. A generated destroy script, in either dialect, contains the line that deletes the
  persistent-volume claims if and only if the preserve flag is unset. The two settings of
  the flag give scripts that differ in that step alone: with the flag set a notice is
  printed where the other script has the comment, the deletion and a blank line.
\<close>

theorem destroy_pvc_flag:
  assumes "generate_k8s_destroy_script K sel p = Inr (Some x)"
  shows "(pvc_delete_line \<in> set (map render_sh (script_sh x)) \<longleftrightarrow> \<not> p)
       \<and> (pvc_delete_line \<in> set (map render_ps1 (script_ps1 x)) \<longleftrightarrow> \<not> p)
       \<and> (\<exists>front_sh front_ps1. \<forall>q y.
            generate_k8s_destroy_script K sel q = Inr (Some y) \<longrightarrow>
              script_sh y =
                front_sh
                @ (if q then [Text (''echo '' @ pvc_notice)]
                   else [Text ''# --- Deleting PersistentVolumeClaims ---\<newline>'',
                         KubectlDeletePvc, Text ''\<newline>''])
                @ [Text (''echo '' @ quoted ''Kubernetes teardown finished.'' @ ''\<newline>'')]
            \<and> script_ps1 y =
                front_ps1
                @ (if q then [Text (''Write-Host '' @ pvc_notice)]
                   else [Text ''# --- Deleting PersistentVolumeClaims ---\<newline>'',
                         KubectlDeletePvc, Text ''\<newline>''])
                @ [Text (''Write-Host '' @ quoted ''Kubernetes teardown finished.''
                          @ ''\<newline>'')])"
proof -
  let ?ms = "fst (get_group_resources K sel)" and ?hs = "snd (get_group_resources K sel)"
  obtain fs where
    fs: "\<And>q. destroy_script_sh sel ?ms ?hs q =
           fs @ pvc_section_sh q
           @ [Text (''echo '' @ quoted ''Kubernetes teardown finished.'' @ ''\<newline>'')]"
    and nfs: "pvc_delete_line \<notin> render_sh ` set fs"
    using destroy_script_sh_split[of sel ?ms ?hs] by blast
  obtain fp where
    fp: "\<And>q. destroy_script_ps1 sel ?ms ?hs q =
           fp @ pvc_section_ps1 q
           @ [Text (''Write-Host '' @ quoted ''Kubernetes teardown finished.'' @ ''\<newline>'')]"
    and nfp: "pvc_delete_line \<notin> render_ps1 ` set fp"
    using destroy_script_ps1_split[of sel ?ms ?hs] by blast
  have m1: "render_sh (Text (''echo '' @ quoted ''Kubernetes teardown finished.'' @ ''\<newline>''))
              \<noteq> pvc_delete_line"
    by (simp add: pvc_delete_line_def)
  have m2: "render_ps1 (Text (''Write-Host '' @ quoted ''Kubernetes teardown finished.''
              @ ''\<newline>'')) \<noteq> pvc_delete_line"
    by (simp add: pvc_delete_line_def)
  have a: "pvc_delete_line \<in> set (map render_sh (script_sh x)) \<longleftrightarrow> \<not> p"
    using generate_destroy_SomeD(3)[OF assms] nfs m1 pvc_section_sh_line[of p]
    by (auto simp: fs)
  have b: "pvc_delete_line \<in> set (map render_ps1 (script_ps1 x)) \<longleftrightarrow> \<not> p"
    using generate_destroy_SomeD(4)[OF assms] nfp m2 pvc_section_ps1_line[of p]
    by (auto simp: fp)
  have c: "script_sh y =
             fs @ (if q then [Text (''echo '' @ pvc_notice)]
                   else [Text ''# --- Deleting PersistentVolumeClaims ---\<newline>'',
                         KubectlDeletePvc, Text ''\<newline>''])
             @ [Text (''echo '' @ quoted ''Kubernetes teardown finished.'' @ ''\<newline>'')]
         \<and> script_ps1 y =
             fp @ (if q then [Text (''Write-Host '' @ pvc_notice)]
                   else [Text ''# --- Deleting PersistentVolumeClaims ---\<newline>'',
                         KubectlDeletePvc, Text ''\<newline>''])
             @ [Text (''Write-Host '' @ quoted ''Kubernetes teardown finished.''
                          @ ''\<newline>'')]"
    if "generate_k8s_destroy_script K sel q = Inr (Some y)" for q y
    using generate_destroy_SomeD(3,4)[OF that]
    by (simp add: fs fp pvc_section_sh_eq pvc_section_ps1_eq)
  from a b c show ?thesis by blast
qed

theorem destroy_pvc_flag_witness:
  "pvc_delete_line \<notin> set (map render_sh (sh_of (generate_k8s_destroy_script ''/k'' [''Messaging''] True)))
   \<and> pvc_delete_line \<in> set (map render_sh (sh_of (generate_k8s_destroy_script ''/k'' [''Messaging''] False)))
   \<and> pvc_delete_line \<notin> set (map render_ps1 (ps1_of (generate_k8s_destroy_script ''/k'' [''Messaging''] True)))
   \<and> pvc_delete_line \<in> set (map render_ps1 (ps1_of (generate_k8s_destroy_script ''/k'' [''Messaging''] False)))"
proof -
  have "generated (generate_k8s_destroy_script ''/k'' [''Messaging''] True)"
    by code_simp
  then obtain xp where
    xp: "generate_k8s_destroy_script ''/k'' [''Messaging''] True = Inr (Some xp)"
    using generatedE by blast
  have "generated (generate_k8s_destroy_script ''/k'' [''Messaging''] False)"
    by code_simp
  then obtain xd where
    xd: "generate_k8s_destroy_script ''/k'' [''Messaging''] False = Inr (Some xd)"
    using generatedE by blast
  show ?thesis
    using destroy_pvc_flag[OF xp] destroy_pvc_flag[OF xd] unfolding xp xd by simp
qed

section \<open>Manifests outside the three directories\<close>

text \<open>
  C10. A manifest whose path contains none of \<^verbatim>\<open>secrets/\<close>, \<^verbatim>\<open>config/\<close> and \<^verbatim>\<open>apps/\<close> is
  neither applied by the generated deploy scripts nor deleted by the generated destroy
  scripts. The witness is the catalog entry \<^verbatim>\<open>rbac/main-node-observability-rbac.yaml\<close>,
  which group resolution returns for \<^verbatim>\<open>Core Applications\<close>.
\<close>

theorem unsignalled_manifest_omitted:
  assumes "generate_k8s_deploy_script K sel = Inr (Some d)"
    and "generate_k8s_destroy_script K sel p = Inr (Some x)"
    and "\<not> str_in ''secrets/'' m" and "\<not> str_in ''config/'' m" and "\<not> str_in ''apps/'' m"
  shows "m \<notin> set (applied_manifests (script_sh d)) \<and> m \<notin> set (applied_manifests (script_ps1 d))
       \<and> m \<notin> set (deleted_manifests (script_sh x)) \<and> m \<notin> set (deleted_manifests (script_ps1 x))"
  using generate_deploy_SomeD(3,4)[OF assms(1)] generate_destroy_SomeD(3,4)[OF assms(2)] assms(3-5)
  by (simp add: applied_manifests_deploy_script_sh applied_manifests_deploy_script_ps1
      deleted_manifests_destroy_script_sh deleted_manifests_destroy_script_ps1
      sorted_reverse_def is_secret_or_config_def is_app_def is_app_or_config_def is_secret_def)

theorem unsignalled_manifest_omitted_witness:
  "''/repo/platform/k8s/rbac/main-node-observability-rbac.yaml''
      \<in> set (fst (get_group_resources ''/repo/platform/k8s'' [''Core Applications'']))
   \<and> generated (generate_k8s_deploy_script ''/repo/platform/k8s'' [''Core Applications''])
   \<and> generated (generate_k8s_destroy_script ''/repo/platform/k8s'' [''Core Applications''] False)
   \<and> ''/repo/platform/k8s/rbac/main-node-observability-rbac.yaml''
      \<notin> set (applied_manifests
            (sh_of (generate_k8s_deploy_script ''/repo/platform/k8s'' [''Core Applications''])))
   \<and> ''/repo/platform/k8s/rbac/main-node-observability-rbac.yaml''
      \<notin> set (deleted_manifests
            (sh_of (generate_k8s_destroy_script ''/repo/platform/k8s'' [''Core Applications''] False)))"
proof -
  let ?K = "''/repo/platform/k8s''" and ?m = "''/repo/platform/k8s/rbac/main-node-observability-rbac.yaml''"
  have gd: "generated (generate_k8s_deploy_script ?K [''Core Applications''])"
    by code_simp
  then obtain d where d: "generate_k8s_deploy_script ?K [''Core Applications''] = Inr (Some d)"
    using generatedE by blast
  have gx: "generated (generate_k8s_destroy_script ?K [''Core Applications''] False)"
    by code_simp
  then obtain x where x: "generate_k8s_destroy_script ?K [''Core Applications''] False = Inr (Some x)"
    using generatedE by blast
  have n: "\<not> str_in ''secrets/'' ?m" "\<not> str_in ''config/'' ?m" "\<not> str_in ''apps/'' ?m"
    by code_simp+
  have i: "?m \<in> set (fst (get_group_resources ?K [''Core Applications'']))"
    by code_simp
  show ?thesis
    using unsignalled_manifest_omitted[OF d x n] i gd gx unfolding d x by simp
qed

section \<open>Script file names\<close>

lemma first_words_lower_eq:
  "first_words_lower sel =
     (if \<forall>g \<in> set sel. str_split g \<noteq> []
      then Inr (map (\<lambda>g. str_lower (hd (str_split g))) sel) else Inl IndexError)"
proof (induction sel)
  case Nil
  show ?case by simp
next
  case (Cons a sel)
  show ?case
  proof (cases "str_split a")
    case Nil
    then show ?thesis by (simp add: first_word_lower_def)
  next
    case (Cons w ws)
    then show ?thesis using Cons.IH by (simp add: first_word_lower_def)
  qed
qed

lemma first_words_lower_Inr_iff:
  "first_words_lower sel = Inr ws \<longleftrightarrow>
     (\<forall>g \<in> set sel. str_split g \<noteq> []) \<and> ws = map (\<lambda>g. str_lower (hd (str_split g))) sel"
  unfolding first_words_lower_eq by auto

lemma script_name_part_Inl_iff:
  "script_name_part sel = Inl e \<longleftrightarrow>
     length sel \<noteq> length K8S_SERVICE_GROUPS \<and> (\<exists>g \<in> set sel. str_split g = [])"
  by (cases e) (auto simp: script_name_part_def first_words_lower_eq)

lemma generated_deploy_iff:
  "generated (generate_k8s_deploy_script K sel) \<longleftrightarrow>
     sel \<noteq> []
     \<and> (fst (get_group_resources K sel) \<noteq> [] \<or> snd (get_group_resources K sel) \<noteq> [])
     \<and> (length sel = length K8S_SERVICE_GROUPS \<or> (\<forall>g \<in> set sel. str_split g \<noteq> []))"
proof (cases "script_name_part sel")
  case (Inl e)
  then show ?thesis
    using script_name_part_Inl_iff[of sel e]
    by (auto simp: generate_k8s_deploy_script_def split: prod.splits)
next
  case (Inr part)
  have "\<not> (length sel \<noteq> length K8S_SERVICE_GROUPS \<and> (\<exists>g \<in> set sel. str_split g = []))"
    using Inr script_name_part_Inl_iff[of sel IndexError] by simp
  with Inr show ?thesis
    by (auto simp: generate_k8s_deploy_script_def split: prod.splits)
qed

lemma str_join_underscore_all:
  assumes "str_join ''_'' ws = ''all''"
  shows "ws = [''all'']"
proof (cases ws)
  case Nil
  with assms show ?thesis by simp
next
  case (Cons x rest)
  show ?thesis
  proof (cases rest)
    case Nil
    with Cons assms show ?thesis by simp
  next
    case (Cons y ys)
    have "str_join ''_'' ws = x @ ''_'' @ str_join ''_'' (y # ys)"
      unfolding \<open>ws = x # rest\<close> Cons by (simp only: str_join.simps)
    then have "CHR ''_'' \<in> set (str_join ''_'' ws)"
      by simp
    then have "CHR ''_'' \<in> set ''all''"
      by (simp only: assms)
    then show ?thesis by simp
  qed
qed

lemma known_first_word_lower:
  "first_word_lower ''Stateful Backend'' = Inr ''stateful''"
  "first_word_lower ''Messaging'' = Inr ''messaging''"
  "first_word_lower ''Core Applications'' = Inr ''core''"
  "first_word_lower ''Scheduling App'' = Inr ''scheduling''"
  "first_word_lower ''News Ingestion Job'' = Inr ''news''"
  by code_simp+

lemma known_group_not_all:
  "known_group g \<Longrightarrow> first_word_lower g \<noteq> Inr ''all''"
  by (auto simp: known_group_iff known_first_word_lower)

lemma resources_nonempty_known:
  assumes "fst (get_group_resources K [g]) \<noteq> [] \<or> snd (get_group_resources K [g]) \<noteq> []"
  shows "known_group g"
proof (rule ccontr)
  assume "\<not> known_group g"
  then have "group_manifests g = []" "group_helm_releases g = []"
    using unknown_group_empty by blast+
  then have "get_group_resources K [g] = ([], [])"
    by (simp add: get_group_resources_def sorted_set_def)
  with assms show False by simp
qed

lemma script_name_part_all_iff:
  assumes "script_name_part sel = Inr part"
    and "fst (get_group_resources K sel) \<noteq> [] \<or> snd (get_group_resources K sel) \<noteq> []"
  shows "part = ''all'' \<longleftrightarrow> length sel = length K8S_SERVICE_GROUPS"
proof
  assume "length sel = length K8S_SERVICE_GROUPS"
  with assms(1) show "part = ''all''" by (simp add: script_name_part_def)
next
  assume all: "part = ''all''"
  show "length sel = length K8S_SERVICE_GROUPS"
  proof (rule ccontr)
    assume n: "length sel \<noteq> length K8S_SERVICE_GROUPS"
    with assms(1) obtain ws where ws: "first_words_lower sel = Inr ws"
      and j: "str_join ''_'' ws = part"
      by (auto simp: script_name_part_def split: sum.splits)
    from j all have "ws = [''all'']" using str_join_underscore_all by simp
    with ws obtain g where g: "sel = [g]" and s: "str_split g \<noteq> []"
      and l: "str_lower (hd (str_split g)) = ''all''"
      by (auto simp: first_words_lower_Inr_iff)
    from s l have "first_word_lower g = Inr ''all''"
      by (cases "str_split g") (simp_all add: first_word_lower_def)
    moreover have "known_group g"
      using assms(2) resources_nonempty_known unfolding g by blast
    ultimately show False using known_group_not_all by blast
  qed
qed

lemma script_name_part_other:
  assumes "script_name_part sel = Inr part" and "length sel \<noteq> length K8S_SERVICE_GROUPS"
  shows "(\<forall>g \<in> set sel. str_split g \<noteq> [])
       \<and> part = str_join ''_'' (map (\<lambda>g. str_lower (hd (str_split g))) sel)"
proof -
  from assms obtain ws where ws: "first_words_lower sel = Inr ws"
    and j: "part = str_join ''_'' ws"
    by (auto simp: script_name_part_def split: sum.splits)
  then show ?thesis by (simp add: first_words_lower_Inr_iff)
qed

lemma catalog_names:
  "distinct (map fst K8S_SERVICE_GROUPS)" "length K8S_SERVICE_GROUPS = 5"
  by (simp_all add: K8S_SERVICE_GROUPS_def)

lemma full_selection_iff:
  assumes "distinct sel" and "\<forall>g \<in> set sel. known_group g"
  shows "length sel = length K8S_SERVICE_GROUPS \<longleftrightarrow> (\<forall>g. known_group g \<longrightarrow> g \<in> set sel)"
proof -
  let ?S = "set (map fst K8S_SERVICE_GROUPS)"
  have sub: "set sel \<subseteq> ?S" using assms(2) by (auto simp: known_group_def)
  have cS: "card ?S = length K8S_SERVICE_GROUPS"
    using distinct_card[OF catalog_names(1)] by simp
  have cs: "card (set sel) = length sel" using assms(1) by (rule distinct_card)
  show ?thesis
  proof
    assume "length sel = length K8S_SERVICE_GROUPS"
    then have "card (set sel) = card ?S" using cS cs by simp
    with sub have "set sel = ?S" by (intro card_subset_eq) simp_all
    then show "\<forall>g. known_group g \<longrightarrow> g \<in> set sel" by (simp add: known_group_def)
  next
    assume "\<forall>g. known_group g \<longrightarrow> g \<in> set sel"
    then have "?S \<subseteq> set sel" by (auto simp: known_group_def)
    with sub have "set sel = ?S" by blast
    then show "length sel = length K8S_SERVICE_GROUPS" using cS cs by simp
  qed
qed

lemma known_group_manifests: "known_group g \<Longrightarrow> group_manifests g \<noteq> []"
  by (auto simp: known_group_iff group_manifests_def K8S_SERVICE_GROUPS_def)

lemma known_selection_resources:
  assumes "sel \<noteq> []" and "\<forall>g \<in> set sel. known_group g"
  shows "fst (get_group_resources K sel) \<noteq> []"
proof -
  from assms obtain g rest where sel: "sel = g # rest" and g: "known_group g"
    by (cases sel) auto
  from known_group_manifests[OF g] have
    "concat (map (\<lambda>g. map (os_path_join K) (group_manifests g)) sel) \<noteq> []"
    by (simp add: sel)
  then have "set (fst (get_group_resources K sel)) \<noteq> {}"
    by (simp add: fst_get_group_resources del: set_concat)
  then show ?thesis by auto
qed

lemma known_group_has_word: "known_group g \<Longrightarrow> str_split g \<noteq> []"
proof -
  assume "known_group g"
  then obtain w where "first_word_lower g = Inr w"
    by (auto simp: known_group_iff known_first_word_lower)
  then show ?thesis by (auto simp: first_word_lower_def)
qed

lemma catalog_selection_slug:
  assumes "distinct sel" and "\<forall>g \<in> set sel. known_group g"
  shows "script_name_part sel =
           Inr (if set (map fst K8S_SERVICE_GROUPS) \<subseteq> set sel then ''all''
                else str_join ''_'' (map (\<lambda>g. str_lower (hd (str_split g))) sel))"
proof -
  have w: "\<forall>g \<in> set sel. str_split g \<noteq> []"
    using assms(2) known_group_has_word by blast
  have f: "length sel = length K8S_SERVICE_GROUPS \<longleftrightarrow> set (map fst K8S_SERVICE_GROUPS) \<subseteq> set sel"
    using full_selection_iff[OF assms] by (auto simp: known_group_def)
  show ?thesis
    using w f by (simp add: script_name_part_def first_words_lower_eq)
qed

text \<open>
  C9. A selection is a non-empty list of pairwise different catalog names, as every caller
  passes it. Both generators then write their scripts, and the four file names are
  \<^verbatim>\<open>deploy_k8s_<slug>\<close> and \<^verbatim>\<open>destroy_k8s_<slug>\<close> with the extensions \<^verbatim>\<open>.sh\<close> and
  \<^verbatim>\<open>.ps1\<close>, for a slug that depends on the selected names alone: \<^verbatim>\<open>all\<close> exactly when
  every catalog group is selected, and otherwise the lowercased first words of the
  selected names, in their order, joined by underscores.
\<close>

theorem script_filenames:
  assumes "sel \<noteq> []" and "distinct sel" and "\<forall>g \<in> set sel. known_group g"
  shows "\<exists>d x slug.
           generate_k8s_deploy_script K sel = Inr (Some d)
         \<and> generate_k8s_destroy_script K sel p = Inr (Some x)
         \<and> filename_sh d = ''deploy_k8s_'' @ slug @ ''.sh''
         \<and> filename_ps1 d = ''deploy_k8s_'' @ slug @ ''.ps1''
         \<and> filename_sh x = ''destroy_k8s_'' @ slug @ ''.sh''
         \<and> filename_ps1 x = ''destroy_k8s_'' @ slug @ ''.ps1''
         \<and> (\<forall>g \<in> set sel. str_split g \<noteq> [])
         \<and> slug = (if \<forall>g. known_group g \<longrightarrow> g \<in> set sel then ''all''
                    else str_join ''_'' (map (\<lambda>g. str_lower (hd (str_split g))) sel))"
proof -
  let ?slug = "if set (map fst K8S_SERVICE_GROUPS) \<subseteq> set sel then ''all''
               else str_join ''_'' (map (\<lambda>g. str_lower (hd (str_split g))) sel)"
  have part: "script_name_part sel = Inr ?slug"
    using catalog_selection_slug[OF assms(2,3)] .
  have res: "fst (get_group_resources K sel) \<noteq> []"
    using known_selection_resources[OF assms(1,3)] .
  obtain ms hs where g: "get_group_resources K sel = (ms, hs)"
    by (cases "get_group_resources K sel")
  with res have ms: "ms \<noteq> []" by simp
  have d: "generate_k8s_deploy_script K sel =
      Inr (Some \<lparr>filename_sh = ''deploy_k8s_'' @ ?slug @ ''.sh'',
                 script_sh = deploy_script_sh K sel ms hs,
                 filename_ps1 = ''deploy_k8s_'' @ ?slug @ ''.ps1'',
                 script_ps1 = deploy_script_ps1 K sel ms hs\<rparr>)"
    using assms(1) ms by (simp add: generate_k8s_deploy_script_def g part)
  have x: "generate_k8s_destroy_script K sel p =
      Inr (Some \<lparr>filename_sh = ''destroy_k8s_'' @ ?slug @ ''.sh'',
                 script_sh = destroy_script_sh sel ms hs p,
                 filename_ps1 = ''destroy_k8s_'' @ ?slug @ ''.ps1'',
                 script_ps1 = destroy_script_ps1 sel ms hs p\<rparr>)"
    using assms(1) ms by (simp add: generate_k8s_destroy_script_def g part)
  have w: "\<forall>g \<in> set sel. str_split g \<noteq> []"
    using assms(3) known_group_has_word by blast
  have c: "(\<forall>g. known_group g \<longrightarrow> g \<in> set sel) \<longleftrightarrow> set (map fst K8S_SERVICE_GROUPS) \<subseteq> set sel"
    by (auto simp: known_group_def)
  show ?thesis
    unfolding c using w by (simp add: d x)
qed

theorem script_filenames_witness:
  "map_sum id (map_option filename_sh)
       (generate_k8s_deploy_script ''/k'' [''News Ingestion Job'', ''Core Applications''])
     = Inr (Some ''deploy_k8s_news_core.sh'')
   \<and> map_sum id (map_option filename_ps1)
       (generate_k8s_destroy_script ''/k'' [''News Ingestion Job'', ''Core Applications''] True)
     = Inr (Some ''destroy_k8s_news_core.ps1'')
   \<and> map_sum id (map_option filename_sh)
       (generate_k8s_destroy_script ''/k''
          [''Messaging'', ''News Ingestion Job'', ''Core Applications'', ''Stateful Backend'',
           ''Scheduling App''] False)
     = Inr (Some ''destroy_k8s_all.sh'')"
proof -
  let ?sel = "[''News Ingestion Job'', ''Core Applications'']"
  let ?all = "[''Messaging'', ''News Ingestion Job'', ''Core Applications'', ''Stateful Backend'',
           ''Scheduling App'']"
  have h: "?sel \<noteq> []" "distinct ?sel" "\<forall>g \<in> set ?sel. known_group g"
    by (simp_all add: known_group_iff)
  have ha: "?all \<noteq> []" "distinct ?all" "\<forall>g \<in> set ?all. known_group g"
    by (simp_all add: known_group_iff)
  have n: "\<not> (\<forall>g. known_group g \<longrightarrow> g \<in> set ?sel)"
    by (auto simp: known_group_iff)
  have a: "\<forall>g. known_group g \<longrightarrow> g \<in> set ?all"
    by (auto simp: known_group_iff)
  have j: "str_join ''_'' (map (\<lambda>g. str_lower (hd (str_split g))) ?sel) = ''news_core''"
    by code_simp
  from script_filenames[OF h, of "''/k''" True] obtain d x slug where
    dx: "generate_k8s_deploy_script ''/k'' ?sel = Inr (Some d)"
    "generate_k8s_destroy_script ''/k'' ?sel True = Inr (Some x)"
    "filename_sh d = ''deploy_k8s_'' @ slug @ ''.sh''"
    "filename_ps1 x = ''destroy_k8s_'' @ slug @ ''.ps1''"
    and sl: "slug = (if \<forall>g. known_group g \<longrightarrow> g \<in> set ?sel then ''all''
                    else str_join ''_'' (map (\<lambda>g. str_lower (hd (str_split g))) ?sel))"
    by blast
  have "slug = ''news_core''"
    unfolding sl by (simp only: if_not_P[OF n] j)
  with dx have one: "map_sum id (map_option filename_sh)
       (generate_k8s_deploy_script ''/k'' ?sel) = Inr (Some ''deploy_k8s_news_core.sh'')"
    "map_sum id (map_option filename_ps1)
       (generate_k8s_destroy_script ''/k'' ?sel True) = Inr (Some ''destroy_k8s_news_core.ps1'')"
    by simp_all
  from script_filenames[OF ha, of "''/k''" False] obtain d' x' slug' where
    dx': "generate_k8s_destroy_script ''/k'' ?all False = Inr (Some x')"
    "filename_sh x' = ''destroy_k8s_'' @ slug' @ ''.sh''"
    and sl': "slug' = (if \<forall>g. known_group g \<longrightarrow> g \<in> set ?all then ''all''
                    else str_join ''_'' (map (\<lambda>g. str_lower (hd (str_split g))) ?all))"
    by blast
  have "slug' = ''all''"
    unfolding sl' by (rule if_P[OF a])
  with dx' have "map_sum id (map_option filename_sh)
       (generate_k8s_destroy_script ''/k'' ?all False) = Inr (Some ''destroy_k8s_all.sh'')"
    by simp
  with one show ?thesis by blast
qed

section \<open>Image extraction\<close>

lemma str_in_single: "str_in [c] s \<longleftrightarrow> c \<in> set s"
proof
  assume "str_in [c] s"
  then obtain ps ss where "s = ps @ [c] @ ss"
    unfolding str_in_def sublist_def by blast
  then show "c \<in> set s" by simp
next
  assume "c \<in> set s"
  then obtain ps ss where "s = ps @ c # ss"
    by (auto simp: in_set_conv_decomp)
  then have "s = ps @ [c] @ ss" by simp
  then show "str_in [c] s"
    unfolding str_in_def sublist_def by blast
qed

lemma no_at_after_strip: "\<not> str_in ''@'' (takeWhile (\<lambda>c. c \<noteq> CHR ''@'') ref)"
proof -
  have "CHR ''@'' \<notin> set (takeWhile (\<lambda>c. c \<noteq> CHR ''@'') ref)"
    using set_takeWhileD by fastforce
  then show ?thesis by (simp add: str_in_single)
qed

lemma image_tag_latest:
  assumes "suffix '':latest'' img"
  shows "image_tag img = ''latest''"
proof -
  from assms obtain pre where "img = pre @ '':latest''"
    unfolding suffix_def by blast
  then show ?thesis by (simp add: image_tag_def)
qed

lemma scan_paths_append:
  "scan_paths fs (xs @ ys) images = scan_paths fs ys (scan_paths fs xs images)"
  by (induction xs arbitrary: images) (simp_all split: manifest_file.splits)

lemma strip_digest_no_at: "\<not> str_in ''@'' (strip_digest ref)"
  unfolding strip_digest_def by (rule no_at_after_strip)

lemma suffix_latest_colon:
  assumes "suffix '':latest'' img"
  shows "str_in '':'' img"
proof -
  from assms obtain pre where "img = pre @ '':latest''"
    unfolding suffix_def by blast
  then have "CHR '':'' \<in> set img" by simp
  then show ?thesis by (simp add: str_in_single)
qed

lemma scan_containers_eq:
  "scan_containers cs images =
     (images @ map strip_digest (filter (\<lambda>r. r \<noteq> []) (containers_read cs)),
      \<not> containers_ok cs)"
  by (induction cs images rule: scan_containers.induct)
    (simp_all add: containers_read_def containers_ok_def strip_digest_def)

lemma scan_doc_eq:
  "scan_doc doc images =
     (images @ map strip_digest (filter (\<lambda>r. r \<noteq> []) (item_read (Document doc))),
      \<not> item_ok (Document doc))"
proof (cases "is_workload doc")
  case False
  then show ?thesis by (simp add: scan_doc_def is_workload_def)
next
  case True
  show ?thesis
  proof (cases "selected_template doc")
    case TemplateError
    with True show ?thesis
      by (simp add: scan_doc_def is_workload_def selected_template_def)
  next
    case (Template cs ics)
    with True show ?thesis
      by (simp add: scan_doc_def is_workload_def selected_template_def scan_containers_eq)
  qed
qed

lemma stream_read_Cons:
  "stream_read (item # rest) = item_read item @ (if item_ok item then stream_read rest else [])"
  by (simp add: stream_read_def)

lemma scan_stream_eq:
  "scan_stream items images =
     images @ map strip_digest (filter (\<lambda>r. r \<noteq> []) (stream_read items))"
proof (induction items arbitrary: images)
  case Nil
  show ?case by (simp add: stream_read_def)
next
  case (Cons item rest)
  show ?case
  proof (cases item)
    case (Document doc)
    then show ?thesis
      using Cons.IH by (simp add: scan_doc_eq stream_read_Cons del: item_read.simps item_ok.simps)
  next
    case NonMapping
    then show ?thesis using Cons.IH by (simp add: stream_read_Cons)
  next
    case YamlError
    then show ?thesis by (simp add: stream_read_Cons)
  qed
qed

lemma scan_paths_eq:
  "scan_paths fs paths images =
     images @ map strip_digest (filter (\<lambda>r. r \<noteq> []) (read_images fs paths))"
proof (induction paths arbitrary: images)
  case Nil
  show ?case by (simp add: read_images_def)
next
  case (Cons path rest)
  show ?case
  proof (cases "fs path")
    case Missing
    then show ?thesis using Cons[of images] by (simp add: read_images_def)
  next
    case Unreadable
    then show ?thesis using Cons[of images] by (simp add: read_images_def)
  next
    case (Stream items)
    then show ?thesis
      using Cons[of "scan_stream items images"] by (simp add: read_images_def scan_stream_eq)
  qed
qed

lemma stream_read_all_ok:
  "list_all item_ok items \<Longrightarrow> stream_read items = concat (map item_read items)"
  by (induction items) (simp_all add: stream_read_Cons stream_read_def)

lemma scan_stream_YamlError:
  "scan_stream (before @ YamlError # after) images = scan_stream before images"
proof (induction before arbitrary: images)
  case Nil
  show ?case by simp
next
  case (Cons item rest)
  show ?case
  proof (cases item)
    case (Document doc)
    then show ?thesis using Cons.IH by (simp split: prod.splits bool.splits)
  next
    case NonMapping
    then show ?thesis using Cons.IH by simp
  next
    case YamlError
    then show ?thesis by simp
  qed
qed

lemma extract_images_member:
  "img \<in> set (extract_images_from_manifests fs paths) \<longleftrightarrow>
     (\<exists>ref \<in> set (read_images fs paths). img = strip_digest ref \<and> suffix '':latest'' img)"
proof
  assume "img \<in> set (extract_images_from_manifests fs paths)"
  then show "\<exists>ref \<in> set (read_images fs paths). img = strip_digest ref \<and> suffix '':latest'' img"
    by (auto simp: extract_images_from_manifests_def scan_paths_eq)
next
  assume "\<exists>ref \<in> set (read_images fs paths). img = strip_digest ref \<and> suffix '':latest'' img"
  then obtain ref where r: "ref \<in> set (read_images fs paths)" "img = strip_digest ref"
    and l: "suffix '':latest'' img"
    by blast
  from l have c: "str_in '':'' img" by (rule suffix_latest_colon)
  from l r(2) have "ref \<noteq> []" by (auto simp: strip_digest_def)
  with r c l show "img \<in> set (extract_images_from_manifests fs paths)"
    by (auto simp: extract_images_from_manifests_def scan_paths_eq)
qed

text \<open>
  C6, as the specification words it, fails in its third part: a manifest whose only image
  is pinned by digest, \<^verbatim>\<open>web:latest@sha256:0a1b\<close>, yields the build candidate
  \<^verbatim>\<open>web:latest\<close>.
\<close>

theorem extract_images_counterexample:
  "str_in ''@'' ''web:latest@sha256:0a1b''
   \<and> read_images pinned_fs [''apps/web.yaml''] = [''web:latest@sha256:0a1b'']
   \<and> extract_images_from_manifests pinned_fs [''apps/web.yaml''] = [''web:latest'']"
  by code_simp

text \<open>
  C6, as the code has it. Image extraction is total and returns a sorted list without
  duplicates. Its elements are exactly the image strings read from the manifests, cut
  before their first \<^verbatim>\<open>@\<close>, that then end in \<^verbatim>\<open>:latest\<close>: every element contains a colon,
  has the tag \<^verbatim>\<open>latest\<close> and contains no \<^verbatim>\<open>@\<close>, and a reference pinned by digest is a
  candidate, without its digest, exactly when its part before the \<^verbatim>\<open>@\<close> ends in
  \<^verbatim>\<open>:latest\<close>. A path that does not exist or cannot be read contributes nothing. A
  manifest that is malformed from some point on is not skipped as a whole: it contributes
  the images read before that point and nothing after it.
\<close>

theorem extract_images_latest_only:
  "sorted (extract_images_from_manifests fs paths)
   \<and> distinct (extract_images_from_manifests fs paths)
   \<and> (\<forall>img. img \<in> set (extract_images_from_manifests fs paths) \<longleftrightarrow>
         (\<exists>ref \<in> set (read_images fs paths). img = strip_digest ref \<and> suffix '':latest'' img))
   \<and> (\<forall>img \<in> set (extract_images_from_manifests fs paths).
         str_in '':'' img \<and> image_tag img = ''latest'' \<and> \<not> str_in ''@'' img)
   \<and> (fs path = Missing \<or> fs path = Unreadable \<longrightarrow>
         extract_images_from_manifests fs (pre @ path # post) =
         extract_images_from_manifests fs (pre @ post))
   \<and> scan_stream (before @ YamlError # after) images = scan_stream before images"
proof -
  have a: "str_in '':'' img \<and> image_tag img = ''latest'' \<and> \<not> str_in ''@'' img"
    if "img \<in> set (extract_images_from_manifests fs paths)" for img
  proof -
    from that obtain ref where "img = strip_digest ref" and l: "suffix '':latest'' img"
      unfolding extract_images_member by blast
    then have "\<not> str_in ''@'' img" by (simp add: strip_digest_no_at)
    with l suffix_latest_colon image_tag_latest show ?thesis by blast
  qed
  have b: "extract_images_from_manifests fs (pre @ path # post) =
           extract_images_from_manifests fs (pre @ post)"
    if "fs path = Missing \<or> fs path = Unreadable"
    using that by (auto simp: extract_images_from_manifests_def scan_paths_append)
  have c: "sorted (extract_images_from_manifests fs paths)"
    "distinct (extract_images_from_manifests fs paths)"
    by (simp_all add: extract_images_from_manifests_def)
  from a b c extract_images_member scan_stream_YamlError show ?thesis
    by blast
qed

theorem extract_images_latest_only_witness:
  "''init:latest'' \<in> set (extract_images_from_manifests sample_fs
       [''apps/web.yaml'', ''apps/broken.yaml'', ''apps/job.yaml'', ''apps/none.yaml''])
   \<and> ''nginx:1.25'' \<notin> set (extract_images_from_manifests sample_fs
       [''apps/web.yaml'', ''apps/broken.yaml'', ''apps/job.yaml'', ''apps/none.yaml''])
   \<and> ''unreached:latest'' \<notin> set (extract_images_from_manifests sample_fs
       [''apps/web.yaml'', ''apps/broken.yaml'', ''apps/job.yaml'', ''apps/none.yaml''])
   \<and> sample_fs ''apps/broken.yaml'' = Unreadable
   \<and> extract_images_from_manifests sample_fs
       [''apps/web.yaml'', ''apps/broken.yaml'', ''apps/job.yaml'', ''apps/none.yaml'']
     = extract_images_from_manifests sample_fs
       [''apps/web.yaml'', ''apps/job.yaml'', ''apps/none.yaml'']
   \<and> extract_images_from_manifests sample_fs
       [''apps/web.yaml'', ''apps/broken.yaml'', ''apps/job.yaml'', ''apps/none.yaml'']
     = [''init:latest'', ''news-ingestion-job:latest'', ''web:latest'']"
proof -
  let ?ps = "[''apps/web.yaml'', ''apps/broken.yaml'', ''apps/job.yaml'', ''apps/none.yaml'']"
  have rd: "read_images sample_fs ?ps =
      [''web:latest'', ''nginx:1.25'', ''init:latest@sha256:77'', ''news-ingestion-job:latest'']"
    by code_simp
  have u: "sample_fs ''apps/broken.yaml'' = Unreadable"
    by (simp add: sample_fs_def)
  have st: "strip_digest ''init:latest@sha256:77'' = ''init:latest''"
    "strip_digest ''web:latest'' = ''web:latest''"
    "strip_digest ''nginx:1.25'' = ''nginx:1.25''"
    "strip_digest ''news-ingestion-job:latest'' = ''news-ingestion-job:latest''"
    by (simp_all add: strip_digest_def)
  have sf: "suffix '':latest'' ''init:latest''" "\<not> suffix '':latest'' ''nginx:1.25''"
    by code_simp+
  note t = extract_images_latest_only[of sample_fs ?ps "''apps/broken.yaml''"
      "[''apps/web.yaml'']" "[''apps/job.yaml'', ''apps/none.yaml'']" "[]" "[]" "[]"]
  from t have m: "img \<in> set (extract_images_from_manifests sample_fs ?ps) \<longleftrightarrow>
      (\<exists>ref \<in> set (read_images sample_fs ?ps). img = strip_digest ref \<and> suffix '':latest'' img)"
    for img by blast
  have i1: "''init:latest'' \<in> set (extract_images_from_manifests sample_fs ?ps)"
    unfolding m rd using st sf by simp
  have i2: "''nginx:1.25'' \<notin> set (extract_images_from_manifests sample_fs ?ps)"
    unfolding m rd using st sf by simp
  have i3: "''unreached:latest'' \<notin> set (extract_images_from_manifests sample_fs ?ps)"
    unfolding m rd using st by simp
  from t u have e: "extract_images_from_manifests sample_fs ?ps =
      extract_images_from_manifests sample_fs [''apps/web.yaml'', ''apps/job.yaml'', ''apps/none.yaml'']"
    by simp
  have v: "extract_images_from_manifests sample_fs ?ps =
      [''init:latest'', ''news-ingestion-job:latest'', ''web:latest'']"
    by code_simp
  from i1 i2 i3 u e v show ?thesis by blast
qed

section \<open>The readiness monitor\<close>

lemma owner_prefix_of_eq: "owner_prefix_of owner = takeWhile (\<lambda>c. c \<noteq> CHR ''-'') owner"
proof (cases "CHR ''-'' \<in> set owner")
  case True
  then have "str_in ''-'' owner"
    unfolding str_in_def sublist_def by (auto simp: in_set_conv_decomp)
  then show ?thesis by (simp add: owner_prefix_of_def)
next
  case False
  then have t: "takeWhile (\<lambda>c. c \<noteq> CHR ''-'') owner = owner"
    by (intro takeWhile_eq_all_conv[THEN iffD2]) auto
  show ?thesis by (simp only: owner_prefix_of_def t if_cancel)
qed

lemma fst_scan_statuses:
  "fst (scan_statuses key css (restarts, reasons)) =
     restarts + sum_list (map restartCount css)"
  by (induction css arbitrary: restarts reasons) (simp_all add: Let_def)

lemma scan_pod_restarts:
  assumes "find_owner (ownerReferences p) None = Some owner" and "owner \<noteq> []"
  shows "restarts_map (scan_pod p maps) (takeWhile (\<lambda>c. c \<noteq> CHR ''-'') owner) =
           Some ((case restarts_map maps (takeWhile (\<lambda>c. c \<noteq> CHR ''-'') owner) of
                    None \<Rightarrow> 0 | Some n \<Rightarrow> n)
                 + sum_list (map restartCount (containerStatuses p)))"
proof -
  obtain restarts reasons where
    r: "scan_statuses (pod_name p) (containerStatuses p) (0, owner_reason_map maps) =
          (restarts, reasons)"
    by (cases "scan_statuses (pod_name p) (containerStatuses p) (0, owner_reason_map maps)")
  have "restarts = sum_list (map restartCount (containerStatuses p))"
    using fst_scan_statuses[of "pod_name p" "containerStatuses p" 0 "owner_reason_map maps"] r
    by simp
  with r assms show ?thesis
    by (simp add: scan_pod_def Let_def owner_prefix_of_eq)
qed

lemma web_pods_aggregate:
  "restarts_map (pod_signals
     [\<lparr>pod_name = ''a'',
       containerStatuses = [\<lparr>restartCount = 2, waiting = None, terminated = None\<rparr>],
       ownerReferences = [(''ReplicaSet'', ''web-7f9c8'')]\<rparr>,
      \<lparr>pod_name = ''b'',
       containerStatuses = [\<lparr>restartCount = 1, waiting = None, terminated = None\<rparr>],
       ownerReferences = [(''ReplicaSet'', ''web-7f9c8'')]\<rparr>]) ''web'' = Some 3"
  by code_simp

text \<open>
  C4 asks that the restart counts and the reason of a pod go to the controller that owns
  it: the Deployment named by the ReplicaSet's name without its hash suffix, or the
  StatefulSet itself. The monitor files them under the owner's name cut at its first
  hyphen. For the ReplicaSet \<^verbatim>\<open>web-7f9c8\<close> this is the Deployment \<^verbatim>\<open>web\<close>, and two pods with
  2 and 1 restarts give 3. For the ReplicaSet \<^verbatim>\<open>agent-tool-worker-7f9c8\<close> it is \<^verbatim>\<open>agent\<close>:
  nothing is filed under \<^verbatim>\<open>agent-tool-worker\<close>, and the row of that Deployment shows no
  restarts and no reason. A StatefulSet \<^verbatim>\<open>postgres-metastore\<close> is filed under \<^verbatim>\<open>postgres\<close>.
\<close>

theorem owner_prefix_first_segment:
  "restarts_map (pod_signals
     [\<lparr>pod_name = ''agent-tool-worker-7f9c8-x2k4q'',
       containerStatuses =
         [\<lparr>restartCount = 2, waiting = Some ''CrashLoopBackOff'', terminated = None\<rparr>],
       ownerReferences = [(''ReplicaSet'', ''agent-tool-worker-7f9c8'')]\<rparr>]) ''agent-tool-worker''
     = None
   \<and> restarts_map (pod_signals
     [\<lparr>pod_name = ''agent-tool-worker-7f9c8-x2k4q'',
       containerStatuses =
         [\<lparr>restartCount = 2, waiting = Some ''CrashLoopBackOff'', terminated = None\<rparr>],
       ownerReferences = [(''ReplicaSet'', ''agent-tool-worker-7f9c8'')]\<rparr>]) ''agent''
     = Some 2
   \<and> restart_count (pod_signals
     [\<lparr>pod_name = ''agent-tool-worker-7f9c8-x2k4q'',
       containerStatuses =
         [\<lparr>restartCount = 2, waiting = Some ''CrashLoopBackOff'', terminated = None\<rparr>],
       ownerReferences = [(''ReplicaSet'', ''agent-tool-worker-7f9c8'')]\<rparr>])
       \<lparr>kind = ''Deployment'', name = ''agent-tool-worker'', ready = 0, replicas = 1\<rparr> = 0
   \<and> shown_reason (pod_signals
     [\<lparr>pod_name = ''agent-tool-worker-7f9c8-x2k4q'',
       containerStatuses =
         [\<lparr>restartCount = 2, waiting = Some ''CrashLoopBackOff'', terminated = None\<rparr>],
       ownerReferences = [(''ReplicaSet'', ''agent-tool-worker-7f9c8'')]\<rparr>])
       \<lparr>kind = ''Deployment'', name = ''agent-tool-worker'', ready = 0, replicas = 1\<rparr> = None
   \<and> owner_prefix_of ''postgres-metastore'' = ''postgres''"
  by code_simp

section \<open>The polling loop\<close>

lemma length_filter_eq_iff:
  "length (filter P xs) = length xs \<longleftrightarrow> (\<forall>x \<in> set xs. P x)"
proof (induction xs)
  case Nil
  show ?case by simp
next
  case (Cons a xs)
  show ?case
  proof (cases "P a")
    case True
    with Cons show ?thesis by simp
  next
    case False
    have "length (filter P xs) \<noteq> Suc (length xs)"
      using length_filter_le[of P xs] by linarith
    with False show ?thesis by simp
  qed
qed

lemma converged_iff:
  "converged sts \<longleftrightarrow>
     sts \<noteq> [] \<and> (\<forall>s \<in> set sts. replicas s > 0 \<and> ready s \<ge> replicas s)"
  by (auto simp: converged_def total_def ready_count_def length_filter_eq_iff is_ready_def)

lemma wait_loop_run:
  assumes "leaves obs start t n" and "i \<le> n"
    and "\<forall>m. i \<le> m \<and> m < n \<longrightarrow> \<not> leaves obs start t m"
  shows "wait_loop (\<lambda>k. Some (obs k)) start t i =
           Some (if converged (statuses (obs n)) then Converged else TimedOut, n)"
  using assms
proof (induction "n - i" arbitrary: i)
  case 0
  then have "i = n" by simp
  with "0.prems"(1) show ?case
    by (subst wait_loop.simps) (auto simp: leaves_def)
next
  case (Suc d)
  then have lt: "i < n" by simp
  with Suc.prems(3) have nl: "\<not> leaves obs start t i" by simp
  have "wait_loop (\<lambda>k. Some (obs k)) start t (Suc i) =
          Some (if converged (statuses (obs n)) then Converged else TimedOut, n)"
  proof (rule Suc.hyps(1))
    show "d = n - Suc i" using Suc.hyps(2) by simp
    show "leaves obs start t n" by (rule Suc.prems(1))
    show "Suc i \<le> n" using lt by simp
    show "\<forall>m. Suc i \<le> m \<and> m < n \<longrightarrow> \<not> leaves obs start t m"
      using Suc.prems(3) by simp
  qed
  with nl show ?case
    by (subst wait_loop.simps) (auto simp: leaves_def)
qed

lemma clock_advances:
  assumes "\<forall>n. clock (obs (Suc n)) \<ge> clock (obs n) + 1"
  shows "clock (obs n) \<ge> clock (obs 0) + real n"
proof (induction n)
  case 0
  show ?case by simp
next
  case (Suc n)
  from assms have "clock (obs (Suc n)) \<ge> clock (obs n) + 1" by blast
  with Suc show ?case by simp
qed

lemma eventually_leaves:
  assumes "\<forall>n. clock (obs (Suc n)) \<ge> clock (obs n) + 1"
  shows "\<exists>n. leaves obs start t n"
proof -
  obtain k :: nat where k: "t + start - clock (obs 0) \<le> real k"
    using real_arch_simple by blast
  from clock_advances[OF assms, of k] k have "clock (obs k) - start \<ge> t"
    by simp
  then show ?thesis unfolding leaves_def by blast
qed

text \<open>
  C5, as the specification words it, fails: the loop does not always leave. In the
  environment \<open>hung_env\<close> the first pass sees the Deployment not ready, the second pass
  waits for a \<^verbatim>\<open>kubectl\<close> call that does not return, and the loop neither converges nor
  times out.
\<close>

theorem wait_for_readiness_hangs_counterexample:
  "wait_for_readiness hung_env 100 None = None"
  by (simp add: wait_for_readiness_def wait_loop.simps hung_env_def stuck_obs_def
      converged_def total_def ready_count_def is_ready_def)

text \<open>
  C5, as the code has it. When the cluster queries of every pass return and the clock
  advances by at least one second from one pass to the next (the \<^verbatim>\<open>time.sleep(1)\<close> between
  two passes), the polling loop returns. It leaves in the first pass in which either there
  is at least one controller and every controller has a positive number of desired replicas
  and at least as many ready ones, or the elapsed time has reached the timeout, 600
  seconds by default. It leaves as converged exactly when the controllers are ready in
  that pass, in particular in the first pass when they are ready there, and as timed out
  otherwise. Both exits are results.
\<close>

theorem wait_for_readiness_terminates:
  assumes "\<forall>n. clock (obs (Suc n)) \<ge> clock (obs n) + 1"
  shows "\<exists>e n. wait_for_readiness (\<lambda>k. Some (obs k)) start timeout_seconds = Some (e, n)
           \<and> (e = Converged \<longleftrightarrow>
                 statuses (obs n) \<noteq> []
                 \<and> (\<forall>s \<in> set (statuses (obs n)). replicas s > 0 \<and> ready s \<ge> replicas s))
           \<and> (e = TimedOut \<longleftrightarrow>
                 \<not> (statuses (obs n) \<noteq> []
                    \<and> (\<forall>s \<in> set (statuses (obs n)). replicas s > 0 \<and> ready s \<ge> replicas s))
                 \<and> clock (obs n) - start
                     \<ge> real_of_int (case timeout_seconds of None \<Rightarrow> 600 | Some t \<Rightarrow> t))
           \<and> (\<forall>m < n.
                 \<not> (statuses (obs m) \<noteq> []
                    \<and> (\<forall>s \<in> set (statuses (obs m)). replicas s > 0 \<and> ready s \<ge> replicas s))
                 \<and> clock (obs m) - start
                     < real_of_int (case timeout_seconds of None \<Rightarrow> 600 | Some t \<Rightarrow> t))
           \<and> (statuses (obs 0) \<noteq> []
                \<and> (\<forall>s \<in> set (statuses (obs 0)). replicas s > 0 \<and> ready s \<ge> replicas s)
                \<longrightarrow> e = Converged \<and> n = 0)"
proof -
  let ?t = "real_of_int (case timeout_seconds of None \<Rightarrow> 600 | Some t \<Rightarrow> t)"
  define n where "n = (LEAST k. leaves obs start ?t k)"
  define e where "e = (if converged (statuses (obs n)) then Converged else TimedOut)"
  have ln: "leaves obs start ?t n"
    unfolding n_def using eventually_leaves[OF assms] by (rule LeastI_ex)
  have before: "\<not> leaves obs start ?t m" if "m < n" for m
    using that unfolding n_def by (rule not_less_Least)
  have run: "wait_for_readiness (\<lambda>k. Some (obs k)) start timeout_seconds = Some (e, n)"
    unfolding wait_for_readiness_def e_def
    using wait_loop_run[OF ln, of 0] before by simp
  have a: "\<forall>m < n. \<not> converged (statuses (obs m)) \<and> clock (obs m) - start < ?t"
    using before by (auto simp: leaves_def not_le)
  have b: "e = Converged \<longleftrightarrow> converged (statuses (obs n))"
    by (simp add: e_def)
  have c: "e = TimedOut \<longleftrightarrow> \<not> converged (statuses (obs n)) \<and> clock (obs n) - start \<ge> ?t"
    using ln by (auto simp: e_def leaves_def)
  have d: "e = Converged \<and> n = 0" if "converged (statuses (obs 0))"
  proof -
    from that have "leaves obs start ?t 0" by (simp add: leaves_def)
    then have "n = 0" using before by blast
    with that show ?thesis by (simp add: e_def)
  qed
  from run a b c d show ?thesis
    unfolding converged_iff by blast
qed

theorem wait_for_readiness_terminates_witness:
  "wait_for_readiness (\<lambda>k. Some (stuck_obs k)) 100 (Some 3) = Some (TimedOut, 3)
   \<and> wait_for_readiness (\<lambda>k. Some (ready_obs k)) 100 None = Some (Converged, 0)"
proof -
  have cs: "\<forall>n. clock (stuck_obs (Suc n)) \<ge> clock (stuck_obs n) + 1"
    by (simp add: stuck_obs_def)
  have cr: "\<forall>n. clock (ready_obs (Suc n)) \<ge> clock (ready_obs n) + 1"
    by (simp add: ready_obs_def)
  have ns: "\<not> (statuses (stuck_obs m) \<noteq> []
      \<and> (\<forall>s \<in> set (statuses (stuck_obs m)). replicas s > 0 \<and> ready s \<ge> replicas s))" for m
    by (simp add: stuck_obs_def)
  have r0: "statuses (ready_obs 0) \<noteq> []
      \<and> (\<forall>s \<in> set (statuses (ready_obs 0)). replicas s > 0 \<and> ready s \<ge> replicas s)"
    by (simp add: ready_obs_def)
  from wait_for_readiness_terminates[OF cs, of 100 "Some 3"] obtain e n where
    s: "wait_for_readiness (\<lambda>k. Some (stuck_obs k)) 100 (Some 3) = Some (e, n)"
    and before: "\<forall>m < n. clock (stuck_obs m) - 100 < real_of_int 3"
    and t: "e = TimedOut \<longleftrightarrow>
              \<not> (statuses (stuck_obs n) \<noteq> []
                 \<and> (\<forall>s \<in> set (statuses (stuck_obs n)). replicas s > 0 \<and> ready s \<ge> replicas s))
              \<and> clock (stuck_obs n) - 100 \<ge> real_of_int 3"
    and c: "e = Converged \<longleftrightarrow>
              statuses (stuck_obs n) \<noteq> []
              \<and> (\<forall>s \<in> set (statuses (stuck_obs n)). replicas s > 0 \<and> ready s \<ge> replicas s)"
    by auto
  from c ns have et: "e = TimedOut" by (cases e) simp_all
  with t have "clock (stuck_obs n) - 100 \<ge> real_of_int 3" by blast
  then have ge: "n \<ge> 3" by (simp add: stuck_obs_def)
  have "\<not> 3 < n"
  proof
    assume "3 < n"
    with before have "clock (stuck_obs 3) - 100 < real_of_int 3" by blast
    then show False by (simp add: stuck_obs_def)
  qed
  with ge have "n = 3" by simp
  with s et have stuck:
    "wait_for_readiness (\<lambda>k. Some (stuck_obs k)) 100 (Some 3) = Some (TimedOut, 3)"
    by simp
  from wait_for_readiness_terminates[OF cr, of 100 None] r0
  have "wait_for_readiness (\<lambda>k. Some (ready_obs k)) 100 None = Some (Converged, 0)"
    by auto
  with stuck show ?thesis by blast
qed

end
